theory Spec2Isabelle
  imports Complex_Main "HOL-Library.Sublist"
begin

text \<open>
  A shallow embedding of \<^verbatim>\<open>generate_image.py\<close>, the command-line client of the Krea
  image service: the arithmetic of the upscale targets, the slug of a prompt, the
  submission and polling of a remote job, the file extension of a saved artifact, the
  engine of a preset run, the upload of a local file, and the provenance store. The
  definitions come first; the properties follow.
\<close>

section \<open>Target dimensions of the two upscale engines\<close>

text \<open>
  \<^verbatim>\<open>upscale_image\<close> (Topaz) and \<^verbatim>\<open>upscale_bloom\<close> take optional source
  dimensions (\<^verbatim>\<open>None\<close> by default) and an integer scale factor. Python integers are
  unbounded, hence \<^typ>\<open>int\<close>.

  Python's \<^verbatim>\<open>x or 1024\<close> yields 1024 when \<^verbatim>\<open>x\<close> is \<^verbatim>\<open>None\<close> or \<^verbatim>\<open>0\<close>.
\<close>

definition or_default :: "int option \<Rightarrow> int \<Rightarrow> int" where
  "or_default x d = (case x of None \<Rightarrow> d | Some v \<Rightarrow> (if v = 0 then d else v))"

text \<open>
  \<^verbatim>\<open>upscale_image\<close>, lines 504-516: when either dimension is missing both are passed
  through \<^verbatim>\<open>or 1024\<close>; the \<^verbatim>\<open>try\<close> body cannot raise. The pair returned is
  \<^verbatim>\<open>(source_width, source_height)\<close> after that block.
\<close>

definition upscale_image_source_dims :: "int option \<Rightarrow> int option \<Rightarrow> int \<times> int" where
  "upscale_image_source_dims source_width source_height =
     (case (source_width, source_height) of
        (Some w, Some h) \<Rightarrow> (w, h)
      | _ \<Rightarrow> (or_default source_width 1024, or_default source_height 1024))"

definition upscale_image_target_dims :: "int option \<Rightarrow> int option \<Rightarrow> int \<Rightarrow> int \<times> int" where
  "upscale_image_target_dims source_width source_height scale_factor =
     (let (w, h) = upscale_image_source_dims source_width source_height
      in (min (w * scale_factor) 22000, min (h * scale_factor) 22000))"

text \<open>\<^verbatim>\<open>upscale_bloom\<close>, lines 682-689: each missing dimension defaults to 1024 on its own.\<close>

definition upscale_bloom_source_dims :: "int option \<Rightarrow> int option \<Rightarrow> int \<times> int" where
  "upscale_bloom_source_dims source_width source_height =
     ((case source_width of None \<Rightarrow> 1024 | Some w \<Rightarrow> w),
      (case source_height of None \<Rightarrow> 1024 | Some h \<Rightarrow> h))"

definition upscale_bloom_target_dims :: "int option \<Rightarrow> int option \<Rightarrow> int \<Rightarrow> int \<times> int" where
  "upscale_bloom_target_dims source_width source_height scale_factor =
     (let (w, h) = upscale_bloom_source_dims source_width source_height
      in (min (w * scale_factor) 10000, min (h * scale_factor) 10000))"

section \<open>Python string operations used by the source\<close>

text \<open>
  A Python \<^verbatim>\<open>str\<close> is a sequence of code points. The model uses \<^typ>\<open>string\<close>, whose
  characters are the code points 0..255 (ASCII and Latin-1); \<^const>\<open>length\<close> therefore
  counts what Python's \<^verbatim>\<open>len\<close> counts on such text. Code points above 255 are outside
  the model.
\<close>

definition code_point :: "char \<Rightarrow> nat" where
  "code_point c = of_char c"

text \<open>\<^verbatim>\<open>str.isspace\<close> per character, which is also what \<^verbatim>\<open>\s\<close> matches in a \<^verbatim>\<open>str\<close>
  pattern: TAB..CR, FS..US, space, NEL and NBSP.\<close>

definition is_space :: "char \<Rightarrow> bool" where
  "is_space c = (let n = code_point c in
     (9 \<le> n \<and> n \<le> 13) \<or> (28 \<le> n \<and> n \<le> 32) \<or> n = 133 \<or> n = 160)"

text \<open>The character class \<^verbatim>\<open>[a-z0-9]\<close>.\<close>

definition is_lower_alnum :: "char \<Rightarrow> bool" where
  "is_lower_alnum c = (let n = code_point c in
     (97 \<le> n \<and> n \<le> 122) \<or> (48 \<le> n \<and> n \<le> 57))"

text \<open>\<^verbatim>\<open>str.lower\<close> on one character: A-Z, and the Latin-1 capitals U+00C0..U+00DE except
  the multiplication sign U+00D7, move up by 32.\<close>

definition lower_char :: "char \<Rightarrow> char" where
  "lower_char c = (let n = code_point c in
     if (65 \<le> n \<and> n \<le> 90) \<or> (192 \<le> n \<and> n \<le> 222 \<and> n \<noteq> 215)
     then char_of (n + 32) else c)"

definition py_lower :: "string \<Rightarrow> string" where
  "py_lower s = map lower_char s"

text \<open>\<^verbatim>\<open>s.lstrip(chars)\<close>, \<^verbatim>\<open>s.rstrip(chars)\<close>, \<^verbatim>\<open>s.strip(chars)\<close>, the character set
  given as a predicate.\<close>

definition py_lstrip :: "(char \<Rightarrow> bool) \<Rightarrow> string \<Rightarrow> string" where
  "py_lstrip P s = dropWhile P s"

definition py_rstrip :: "(char \<Rightarrow> bool) \<Rightarrow> string \<Rightarrow> string" where
  "py_rstrip P s = rev (dropWhile P (rev s))"

definition py_strip :: "(char \<Rightarrow> bool) \<Rightarrow> string \<Rightarrow> string" where
  "py_strip P s = py_rstrip P (py_lstrip P s)"

text \<open>\<^verbatim>\<open>re.sub('[^...]', '', s)\<close>: every character outside the kept class is deleted.\<close>

definition re_sub_delete :: "(char \<Rightarrow> bool) \<Rightarrow> string \<Rightarrow> string" where
  "re_sub_delete keep s = filter keep s"

text \<open>\<^verbatim>\<open>re.sub('[...]+', r, s)\<close>: every maximal run of characters of the class is
  replaced by \<open>r\<close>.\<close>

function re_sub_runs :: "(char \<Rightarrow> bool) \<Rightarrow> string \<Rightarrow> string \<Rightarrow> string" where
  "re_sub_runs P r [] = []"
| "re_sub_runs P r (c # cs) =
     (if P c then r @ re_sub_runs P r (dropWhile P cs) else c # re_sub_runs P r cs)"
  by pat_completeness auto
termination
  by (relation "measure (\<lambda>(P, r, s). length s)") (auto simp: less_Suc_eq_le length_dropWhile_le)

text \<open>\<^verbatim>\<open>s[:n]\<close>: a negative bound counts from the end, and the slice is clipped to the
  string.\<close>

definition py_slice_to :: "int \<Rightarrow> string \<Rightarrow> string" where
  "py_slice_to n s = (if 0 \<le> n then take (nat n) s else take (nat (int (length s) + n)) s)"

text \<open>\<^verbatim>\<open>s.rsplit(sep, 1)[0]\<close> for a one-character separator: the text before the last
  separator, or all of \<open>s\<close> when it has none.\<close>

definition rsplit1_head :: "char \<Rightarrow> string \<Rightarrow> string" where
  "rsplit1_head sep s =
     (if sep \<in> set s then rev (tl (dropWhile (\<lambda>c. c \<noteq> sep) (rev s))) else s)"

text \<open>\<^verbatim>\<open>s.startswith(p)\<close>, \<^verbatim>\<open>s.endswith(p)\<close> and \<^verbatim>\<open>p in s\<close>.\<close>

fun startswith :: "string \<Rightarrow> string \<Rightarrow> bool" where
  "startswith s [] = True"
| "startswith [] (p # ps) = False"
| "startswith (c # cs) (p # ps) = (c = p \<and> startswith cs ps)"

definition endswith :: "string \<Rightarrow> string \<Rightarrow> bool" where
  "endswith s p = startswith (rev s) (rev p)"

fun contains :: "string \<Rightarrow> string \<Rightarrow> bool" where
  "contains [] p = (p = [])"
| "contains (c # cs) p = (startswith (c # cs) p \<or> contains cs p)"

section \<open>Slugs\<close>

text \<open>
  \<^verbatim>\<open>slugify\<close>, lines 284-292: the slug before truncation.
\<close>

definition slug_cleaned :: "string \<Rightarrow> string" where
  "slug_cleaned text =
     (let slug = py_strip is_space (py_lower text);
          slug = re_sub_delete (\<lambda>c. is_lower_alnum c \<or> is_space c \<or> c = CHR ''-'') slug;
          slug = re_sub_runs (\<lambda>c. is_space c \<or> c = CHR ''_'') ''-'' slug;
          slug = re_sub_runs (\<lambda>c. c = CHR ''-'') ''-'' slug
      in py_strip (\<lambda>c. c = CHR ''-'') slug)"

text \<open>
  \<^verbatim>\<open>slugify(text, max_length)\<close>, lines 281-296. The only caller,
  \<^verbatim>\<open>generate_image\<close>, leaves \<^verbatim>\<open>max_length\<close> at its default 50.
\<close>

definition slugify_len :: "string \<Rightarrow> int \<Rightarrow> string" where
  "slugify_len text max_length =
     (let slug = slug_cleaned text;
          slug = (if int (length slug) > max_length
                  then rsplit1_head CHR ''-'' (py_slice_to max_length slug) else slug)
      in if slug = [] then ''image'' else slug)"

definition slugify :: "string \<Rightarrow> string" where
  "slugify text = slugify_len text 50"

text \<open>
  What the specification says of a slug: a non-empty text of lower-case letters, digits
  and hyphens, with no two hyphens in a row and none at either end.
\<close>

definition slug_char :: "char \<Rightarrow> bool" where
  "slug_char c = (is_lower_alnum c \<or> c = CHR ''-'')"

definition no_double_hyphen :: "string \<Rightarrow> bool" where
  "no_double_hyphen s = successively (\<lambda>a b. \<not> (a = CHR ''-'' \<and> b = CHR ''-'')) s"

definition well_formed_slug :: "string \<Rightarrow> bool" where
  "well_formed_slug s =
     (s \<noteq> [] \<and> list_all slug_char s \<and> no_double_hyphen s \<and>
      hd s \<noteq> CHR ''-'' \<and> last s \<noteq> CHR ''-'')"

text \<open>
  A truncation \<open>out\<close> of \<open>full\<close> ends at a word boundary when it is all of \<open>full\<close> or is
  followed in \<open>full\<close> by a hyphen, so that no word of \<open>full\<close> is cut in two.
\<close>

definition cut_at_word_boundary :: "string \<Rightarrow> string \<Rightarrow> bool" where
  "cut_at_word_boundary full out = (out = full \<or> startswith full (out @ ''-''))"

text \<open>
  The source dimension an upscale works from: the one supplied, or 1024 (the size of a
  Krea-generated image) when none is.
\<close>

definition source_dim :: "int option \<Rightarrow> int" where
  "source_dim d = (case d of None \<Rightarrow> 1024 | Some v \<Rightarrow> v)"

text \<open>A supplied source dimension is a positive number of pixels.\<close>

definition valid_source_dim :: "int option \<Rightarrow> bool" where
  "valid_source_dim d = (case d of None \<Rightarrow> True | Some v \<Rightarrow> 0 < v)"

section \<open>Saving the artifact: the file extension\<close>

text \<open>
  \<^verbatim>\<open>generate_image\<close>, lines 412-419. \<open>content_type_header\<close> is the
  \<^verbatim>\<open>Content-Type\<close> header of the download response, \<open>None\<close> when the response has none
  (\<^verbatim>\<open>headers.get("Content-Type", "")\<close>).
\<close>

definition generate_image_ext :: "string option \<Rightarrow> string \<Rightarrow> string" where
  "generate_image_ext content_type_header image_url =
     (let content_type = (case content_type_header of None \<Rightarrow> [] | Some v \<Rightarrow> v)
      in if contains content_type ''png'' \<or> endswith image_url ''.png'' then ''.png''
         else if contains content_type ''webp'' \<or> endswith image_url ''.webp'' then ''.webp''
         else ''.jpg'')"

text \<open>
  \<^verbatim>\<open>upscale_image\<close>, line 601, and \<^verbatim>\<open>upscale_bloom\<close>, line 777: the same expression
  over the requested \<^verbatim>\<open>output_format\<close>; neither reads the response's content type or
  the URL.
\<close>

definition upscale_image_ext :: "string \<Rightarrow> string" where
  "upscale_image_ext output_format =
     (if output_format \<noteq> ''jpg'' then ''.'' @ output_format else ''.jpg'')"

definition upscale_bloom_ext :: "string \<Rightarrow> string" where
  "upscale_bloom_ext output_format =
     (if output_format \<noteq> ''jpg'' then ''.'' @ output_format else ''.jpg'')"

text \<open>
  The resolution as the specification words it: the declared content type first, the
  URL's suffix only when the content type yields neither png nor webp, and the JPEG
  extension when neither does.
\<close>

definition spec_ext :: "string \<Rightarrow> string \<Rightarrow> string" where
  "spec_ext content_type url =
     (if contains content_type ''png'' then ''.png''
      else if contains content_type ''webp'' then ''.webp''
      else if endswith url ''.png'' then ''.png''
      else if endswith url ''.webp'' then ''.webp''
      else ''.jpg'')"

section \<open>Input resolution and upload\<close>

text \<open>
  The module reads its FTP settings from the environment when it is loaded (lines
  31-36). \<open>getenv\<close> is \<^verbatim>\<open>os.getenv\<close>: \<open>None\<close> for a variable that is not set.
  \<open>ftp_port\<close> stands for the integer \<^verbatim>\<open>int(os.getenv("FTP_PORT", "21"))\<close>.
\<close>

record environment =
  getenv :: "string \<Rightarrow> string option"
  ftp_port :: int

definition FTP_HOST :: "environment \<Rightarrow> string option" where
  "FTP_HOST env = getenv env ''FTP_HOST''"

definition FTP_USER :: "environment \<Rightarrow> string option" where
  "FTP_USER env = getenv env ''FTP_USER''"

definition FTP_PASS :: "environment \<Rightarrow> string option" where
  "FTP_PASS env = getenv env ''FTP_PASS''"

definition FTP_REMOTE_PATH :: "environment \<Rightarrow> string" where
  "FTP_REMOTE_PATH env = (case getenv env ''FTP_REMOTE_PATH'' of None \<Rightarrow> ''/'' | Some v \<Rightarrow> v)"

definition FTP_PUBLIC_URL :: "environment \<Rightarrow> string" where
  "FTP_PUBLIC_URL env = (case getenv env ''FTP_PUBLIC_URL'' of None \<Rightarrow> [] | Some v \<Rightarrow> v)"

text \<open>Python's truth value of a string or \<^verbatim>\<open>None\<close>.\<close>

definition str_truthy :: "string option \<Rightarrow> bool" where
  "str_truthy x = (case x of None \<Rightarrow> False | Some s \<Rightarrow> s \<noteq> [])"

text \<open>\<^verbatim>\<open>all([FTP_HOST, FTP_USER, FTP_PASS, FTP_PUBLIC_URL])\<close>, line 193.\<close>

definition ftp_configured :: "environment \<Rightarrow> bool" where
  "ftp_configured env =
     list_all str_truthy [FTP_HOST env, FTP_USER env, FTP_PASS env, Some (FTP_PUBLIC_URL env)]"

text \<open>
  The FTP server is the environment of the upload: it answers each command, given the
  commands sent before. \<^verbatim>\<open>ErrorPerm\<close> is \<^verbatim>\<open>ftplib.error_perm\<close>, \<^verbatim>\<open>ErrorOther\<close> any
  other member of \<^verbatim>\<open>ftplib.all_errors\<close>. An upload returns, with its result, the
  commands it sent, in order: the network attempts it made.
\<close>

datatype ftp_op =
    Connect string int
  | Login string string
  | Cwd string
  | Mkd string
  | Stor string
  | Quit

datatype ftp_reply = Ok | ErrorPerm | ErrorOther

type_synonym ftp_server = "ftp_op list \<Rightarrow> ftp_op \<Rightarrow> ftp_reply"

definition send :: "ftp_server \<Rightarrow> ftp_op list \<Rightarrow> ftp_op \<Rightarrow> ftp_reply \<times> ftp_op list" where
  "send server sent op = (server sent op, sent @ [op])"

datatype input_error =
    FtpNotConfigured          \<comment> \<open>\<^verbatim>\<open>ValueError("FTP not configured...")\<close>: ConfigurationError\<close>
  | FileNotFound string       \<comment> \<open>\<^verbatim>\<open>ValueError("File not found: ...")\<close>\<close>
  | FtpUploadFailed           \<comment> \<open>\<^verbatim>\<open>RuntimeError("FTP upload failed: ...")\<close>: UploadError\<close>
  | InvalidImagePath string   \<comment> \<open>\<^verbatim>\<open>ValueError("Invalid image path: ...")\<close>: InvalidInputError\<close>

text \<open>\<^verbatim>\<open>s.split(sep)\<close> for a one-character separator.\<close>

fun py_split :: "char \<Rightarrow> string \<Rightarrow> string list" where
  "py_split sep [] = [[]]"
| "py_split sep (c # cs) =
     (if c = sep then [] # py_split sep cs
      else (case py_split sep cs of [] \<Rightarrow> [[c]] | w # ws \<Rightarrow> (c # w) # ws))"

text \<open>
  \<^verbatim>\<open>Path(p).suffix\<close> on a POSIX path: the final component is the last part that is
  neither empty nor a single dot, and its suffix starts at its last dot, unless that dot
  is its first or its last character.
\<close>

definition path_name :: "string \<Rightarrow> string" where
  "path_name p =
     (case filter (\<lambda>part. part \<noteq> [] \<and> part \<noteq> ''.'') (py_split CHR ''/'' p) of
        [] \<Rightarrow> [] | parts \<Rightarrow> last parts)"

definition path_suffix :: "string \<Rightarrow> string" where
  "path_suffix p =
     (let name = path_name p;
          after = rev (takeWhile (\<lambda>c. c \<noteq> CHR ''.'') (rev name))
      in if CHR ''.'' \<in> set name \<and> after \<noteq> [] \<and> length after + 1 < length name
         then CHR ''.'' # after else [])"

text \<open>
  The loop that creates the remote directory, lines 223-234. The result is \<open>False\<close> when
  an error other than \<^verbatim>\<open>error_perm\<close> leaves the loop (the outer handler then fails
  the upload), with the commands sent so far.
\<close>

fun make_dirs :: "ftp_server \<Rightarrow> string \<Rightarrow> string list \<Rightarrow> ftp_op list \<Rightarrow> bool \<times> ftp_op list" where
  "make_dirs server current [] sent = (True, sent)"
| "make_dirs server current (part # parts) sent =
     (let current = current @ ''/'' @ part;
          (r1, sent) = send server sent (Cwd current)
      in case r1 of
           Ok \<Rightarrow> make_dirs server current parts sent
         | ErrorOther \<Rightarrow> (False, sent)
         | ErrorPerm \<Rightarrow>
             (let (r2, sent) = send server sent (Mkd current)
              in case r2 of
                   ErrorOther \<Rightarrow> (False, sent)
                 | ErrorPerm \<Rightarrow> make_dirs server current parts sent
                 | Ok \<Rightarrow>
                     (let (r3, sent) = send server sent (Cwd current)
                      in case r3 of
                           ErrorOther \<Rightarrow> (False, sent)
                         | _ \<Rightarrow> make_dirs server current parts sent)))"

text \<open>Lines 217-234: enter the remote directory, creating it when the server refuses.\<close>

definition enter_remote_dir :: "ftp_server \<Rightarrow> string \<Rightarrow> ftp_op list \<Rightarrow> bool \<times> ftp_op list" where
  "enter_remote_dir server remote_path sent =
     (let remote_dir = py_rstrip (\<lambda>c. c = CHR ''/'') remote_path
      in if remote_dir = [] then (True, sent)
         else (let (r, sent) = send server sent (Cwd remote_dir)
               in case r of
                    Ok \<Rightarrow> (True, sent)
                  | ErrorOther \<Rightarrow> (False, sent)
                  | ErrorPerm \<Rightarrow>
                      make_dirs server []
                        (py_split CHR ''/'' (py_strip (\<lambda>c. c = CHR ''/'') remote_dir)) sent))"

text \<open>
  \<^verbatim>\<open>upload_to_ftp\<close>, lines 180-248. \<open>path_exists\<close> and \<open>can_open\<close> are the file
  system: whether \<^verbatim>\<open>Path.exists\<close> holds of a path, and whether
  \<^verbatim>\<open>open(path, 'rb')\<close> succeeds on it (it raises \<^verbatim>\<open>OSError\<close>, a member of
  \<^verbatim>\<open>ftplib.all_errors\<close>, on a directory or an unreadable file). \<open>uuid_hex\<close> is the 32
  hexadecimal digits of a fresh \<^verbatim>\<open>uuid.uuid4()\<close>.
\<close>

definition upload_to_ftp ::
  "environment \<Rightarrow> (string \<Rightarrow> bool) \<Rightarrow> (string \<Rightarrow> bool) \<Rightarrow> ftp_server \<Rightarrow> string \<Rightarrow> string
     \<Rightarrow> (input_error + string) \<times> ftp_op list" where
  "upload_to_ftp env path_exists can_open server uuid_hex local_path =
     (if \<not> ftp_configured env then (Inl FtpNotConfigured, [])
      else if \<not> path_exists local_path then (Inl (FileNotFound local_path), [])
      else
        let ext = (if path_suffix local_path = [] then ''.png'' else path_suffix local_path);
            unique_name = take 12 uuid_hex @ ext;
            (r, sent) = send server [] (Connect (the (FTP_HOST env)) (ftp_port env))
        in if r \<noteq> Ok then (Inl FtpUploadFailed, sent)
        else let (r, sent) = send server sent (Login (the (FTP_USER env)) (the (FTP_PASS env)))
        in if r \<noteq> Ok then (Inl FtpUploadFailed, sent)
        else let (entered, sent) = enter_remote_dir server (FTP_REMOTE_PATH env) sent
        in if \<not> entered then (Inl FtpUploadFailed, sent)
        else if \<not> can_open local_path then (Inl FtpUploadFailed, sent)
        else let (r, sent) = send server sent (Stor unique_name)
        in if r \<noteq> Ok then (Inl FtpUploadFailed, sent)
        else let (r, sent) = send server sent Quit
        in if r \<noteq> Ok then (Inl FtpUploadFailed, sent)
        else (Inr (py_rstrip (\<lambda>c. c = CHR ''/'') (FTP_PUBLIC_URL env) @ ''/'' @ unique_name),
              sent))"

text \<open>\<^verbatim>\<open>is_url\<close>, \<^verbatim>\<open>is_local_file\<close> and \<^verbatim>\<open>resolve_image_url\<close>, lines 251-278.\<close>

definition is_url :: "string \<Rightarrow> bool" where
  "is_url path = (startswith path ''http://'' \<or> startswith path ''https://'')"

definition is_local_file :: "(string \<Rightarrow> bool) \<Rightarrow> string \<Rightarrow> bool" where
  "is_local_file path_exists path = (if is_url path then False else path_exists path)"

definition resolve_image_url ::
  "environment \<Rightarrow> (string \<Rightarrow> bool) \<Rightarrow> (string \<Rightarrow> bool) \<Rightarrow> ftp_server \<Rightarrow> string \<Rightarrow> string
     \<Rightarrow> (input_error + string) \<times> ftp_op list" where
  "resolve_image_url env path_exists can_open server uuid_hex path =
     (if is_url path then (Inr path, [])
      else if is_local_file path_exists path
        then upload_to_ftp env path_exists can_open server uuid_hex path
      else (Inl (InvalidImagePath path), []))"

text \<open>An environment given as a list of the variables that are set, with port 21.\<close>

definition env_of :: "(string \<times> string) list \<Rightarrow> environment" where
  "env_of vars = \<lparr>getenv = map_of vars, ftp_port = 21\<rparr>"

section \<open>Remote jobs: submission and polling\<close>

text \<open>
  A JSON value as \<^verbatim>\<open>response.json()\<close> returns it; an object is an association list.
  Floating-point numbers do not occur in what the code inspects and are left out.
\<close>

datatype json =
    JNull
  | JBool bool
  | JInt int
  | JStr string
  | JArr "json list"
  | JObj "(string \<times> json) list"

text \<open>Python's truth value of a JSON value, as \<^verbatim>\<open>not job_id\<close> tests it.\<close>

fun truthy :: "json \<Rightarrow> bool" where
  "truthy JNull = False"
| "truthy (JBool b) = b"
| "truthy (JInt n) = (n \<noteq> 0)"
| "truthy (JStr s) = (s \<noteq> [])"
| "truthy (JArr xs) = (xs \<noteq> [])"
| "truthy (JObj kvs) = (kvs \<noteq> [])"

text \<open>
  What the code reads of a \<^verbatim>\<open>requests\<close> response: the status code, the raw body
  \<^verbatim>\<open>text\<close>, and the value of \<^verbatim>\<open>json()\<close> (\<open>None\<close> when the body is not JSON).
\<close>

record http_response =
  status_code :: int
  "text" :: string
  json_body :: "json option"

text \<open>
  Every \<^verbatim>\<open>raise\<close> of the submit-and-poll code is one constructor, carrying the values
  its message interpolates. The source raises them all as \<^verbatim>\<open>RuntimeError\<close>; the
  specification's names are given on the right.
\<close>

datatype job_error =
    InvalidApiKey                   \<comment> \<open>401, "Invalid API key...": AuthError\<close>
  | InsufficientCredits             \<comment> \<open>402, "Insufficient credits...": BillingError\<close>
  | ApiRequestFailed int string     \<comment> \<open>"API request failed (code): text": ApiError\<close>
  | NoJobId json                    \<comment> \<open>"No job_id in response: data": SubmissionError\<close>
  | JobStatusFailed string          \<comment> \<open>"Failed to get job status: text": ApiError\<close>
  | JobFailed json                  \<comment> \<open>"Job failed: job_data": JobFailure\<close>
  | JobCancelled                    \<comment> \<open>"Job was cancelled": JobCancelled\<close>
  | JobTimedOut nat                 \<comment> \<open>"Job timed out after max_wait s": JobTimeout\<close>
  | JSONDecodeError                 \<comment> \<open>raised by \<^verbatim>\<open>json()\<close> on a body that is not JSON\<close>
  | AttributeError json             \<comment> \<open>raised by \<^verbatim>\<open>.get\<close> on a value that is not an object\<close>

text \<open>\<^verbatim>\<open>data = response.json()\<close> followed by \<^verbatim>\<open>data.get(key)\<close>; a missing key gives
  Python's \<^verbatim>\<open>None\<close>, here \<^const>\<open>JNull\<close>.\<close>

definition json_get :: "http_response \<Rightarrow> string \<Rightarrow> job_error + json" where
  "json_get response key =
     (case json_body response of
        None \<Rightarrow> Inl JSONDecodeError
      | Some (JObj kvs) \<Rightarrow> (case map_of kvs key of None \<Rightarrow> Inr JNull | Some v \<Rightarrow> Inr v)
      | Some data \<Rightarrow> Inl (AttributeError data))"

text \<open>A JSON value that is an object, the only kind \<^verbatim>\<open>.get\<close> works on.\<close>

definition is_json_object :: "json \<Rightarrow> bool" where
  "is_json_object data = (case data of JObj kvs \<Rightarrow> True | _ \<Rightarrow> False)"

text \<open>
  The check of the submission response, the same statements in \<^verbatim>\<open>generate_image\<close>
  (lines 354-365), \<^verbatim>\<open>upscale_image\<close> (543-554) and \<^verbatim>\<open>upscale_bloom\<close> (718-729).
  The result is the job identifier.
\<close>

definition submitted_job_id :: "http_response \<Rightarrow> job_error + json" where
  "submitted_job_id response =
     (if status_code response = 401 then Inl InvalidApiKey
      else if status_code response = 402 then Inl InsufficientCredits
      else if status_code response \<noteq> 200
        then Inl (ApiRequestFailed (status_code response) (text response))
      else case json_get response ''job_id'' of
             Inl e \<Rightarrow> Inl e
           | Inr job_id \<Rightarrow>
               if \<not> truthy job_id then Inl (NoJobId (the (json_body response)))
               else Inr job_id)"

text \<open>
  One iteration of the polling loop up to the \<^verbatim>\<open>sleep\<close>: \<open>Some\<close> when the loop ends
  here (by \<^verbatim>\<open>break\<close> with the job data, or by a \<^verbatim>\<open>raise\<close>), \<open>None\<close> when it goes on
  to sleep and poll again.
\<close>

definition poll_step :: "http_response \<Rightarrow> (job_error + json) option" where
  "poll_step job_response =
     (if status_code job_response \<noteq> 200
        then Some (Inl (JobStatusFailed (text job_response)))
      else case json_get job_response ''status'' of
             Inl e \<Rightarrow> Some (Inl e)
           | Inr status \<Rightarrow>
               if status = JStr ''completed'' then Some (Inr (the (json_body job_response)))
               else if status = JStr ''failed''
                 then Some (Inl (JobFailed (the (json_body job_response))))
               else if status = JStr ''cancelled'' then Some (Inl JobCancelled)
               else None)"

text \<open>
  The polling loop. \<open>fetch i\<close> is the response to the \<open>i\<close>-th status request from now
  on, and \<open>elapsed\<close> the loop's own counter of seconds slept. The result pairs the outcome
  with the counter at the moment the loop ends. With a zero interval the source's loop
  does not end on a job that never becomes terminal, so the function is partial.
\<close>

partial_function (option) poll_loop ::
  "nat \<Rightarrow> nat \<Rightarrow> (nat \<Rightarrow> http_response) \<Rightarrow> nat \<Rightarrow> ((job_error + json) \<times> nat) option" where
  "poll_loop max_wait poll_interval fetch elapsed =
     (if elapsed < max_wait then
        (case poll_step (fetch 0) of
           Some outcome \<Rightarrow> Some (outcome, elapsed)
         | None \<Rightarrow> poll_loop max_wait poll_interval (\<lambda>i. fetch (Suc i)) (elapsed + poll_interval))
      else Some (Inl (JobTimedOut max_wait), elapsed))"

declare poll_loop.simps [code]

text \<open>The three loops of the source, with their constants (lines 370-372, 559-561, 735-737).\<close>

definition generate_image_poll :: "(nat \<Rightarrow> http_response) \<Rightarrow> ((job_error + json) \<times> nat) option" where
  "generate_image_poll fetch = poll_loop 120 2 fetch 0"

definition upscale_image_poll :: "(nat \<Rightarrow> http_response) \<Rightarrow> ((job_error + json) \<times> nat) option" where
  "upscale_image_poll fetch = poll_loop 120 2 fetch 0"

definition upscale_bloom_poll :: "(nat \<Rightarrow> http_response) \<Rightarrow> ((job_error + json) \<times> nat) option" where
  "upscale_bloom_poll fetch = poll_loop 300 5 fetch 0"

text \<open>
  The vocabulary of the specification: a status reply is a 200 response whose body is a
  JSON object, its status is the \<^verbatim>\<open>status\<close> member, and the terminal statuses are
  \<^verbatim>\<open>completed\<close>, \<^verbatim>\<open>failed\<close> and \<^verbatim>\<open>cancelled\<close>.
\<close>

definition status_reply :: "http_response \<Rightarrow> bool" where
  "status_reply r = (status_code r = 200 \<and> (case json_body r of Some (JObj kvs) \<Rightarrow> True | _ \<Rightarrow> False))"

definition reply_status :: "http_response \<Rightarrow> json" where
  "reply_status r = (case json_body r of
       Some (JObj kvs) \<Rightarrow> (case map_of kvs ''status'' of None \<Rightarrow> JNull | Some v \<Rightarrow> v)
     | _ \<Rightarrow> JNull)"

definition terminal_status :: "json \<Rightarrow> bool" where
  "terminal_status s = (s = JStr ''completed'' \<or> s = JStr ''failed'' \<or> s = JStr ''cancelled'')"

definition is_2xx :: "int \<Rightarrow> bool" where
  "is_2xx code = (200 \<le> code \<and> code < 300)"

section \<open>Presets and the choice of the upscale engine\<close>

text \<open>
  \<^verbatim>\<open>UPSCALE_PRESETS\<close>, lines 58-171. The floating-point settings are only passed on,
  never computed with; they are carried as the decimal numbers the source writes.
\<close>

record topaz_settings =
  model :: string
  sharpen :: real
  denoise :: real
  fix_compression :: real
  face_enhancement :: bool

record bloom_settings =
  creativity :: int
  face_preservation :: bool
  color_preservation :: bool

record preset =
  description :: string
  engine :: string
  topaz :: topaz_settings
  bloom :: bloom_settings

definition UPSCALE_PRESETS :: "(string \<times> preset) list" where
  "UPSCALE_PRESETS =
    [(''portrait'', \<lparr>description = ''Portrait photograph (face preservation enabled)'',
        engine = ''topaz'',
        topaz = \<lparr>model = ''High Fidelity V2'', sharpen = 0.4, denoise = 0.3,
                  fix_compression = 0.4, face_enhancement = True\<rparr>,
        bloom = \<lparr>creativity = 2, face_preservation = True, color_preservation = True\<rparr>\<rparr>),
     (''photo'', \<lparr>description = ''General photograph (realistic, preserve details)'',
        engine = ''topaz'',
        topaz = \<lparr>model = ''High Fidelity V2'', sharpen = 0.5, denoise = 0.3,
                  fix_compression = 0.5, face_enhancement = False\<rparr>,
        bloom = \<lparr>creativity = 2, face_preservation = False, color_preservation = True\<rparr>\<rparr>),
     (''artwork'', \<lparr>description = ''Digital art, illustration, or AI-generated image'',
        engine = ''topaz'',
        topaz = \<lparr>model = ''Standard V2'', sharpen = 0.6, denoise = 0.2,
                  fix_compression = 0.3, face_enhancement = False\<rparr>,
        bloom = \<lparr>creativity = 4, face_preservation = False, color_preservation = False\<rparr>\<rparr>),
     (''cgi'', \<lparr>description = ''3D render or CGI content'',
        engine = ''topaz'',
        topaz = \<lparr>model = ''CGI'', sharpen = 0.5, denoise = 0.1,
                  fix_compression = 0.2, face_enhancement = False\<rparr>,
        bloom = \<lparr>creativity = 3, face_preservation = False, color_preservation = True\<rparr>\<rparr>),
     (''lowres'', \<lparr>description = ''Low resolution or heavily compressed source'',
        engine = ''bloom'',
        topaz = \<lparr>model = ''Low Resolution V2'', sharpen = 0.3, denoise = 0.7,
                  fix_compression = 0.8, face_enhancement = False\<rparr>,
        bloom = \<lparr>creativity = 5, face_preservation = False, color_preservation = False\<rparr>\<rparr>),
     (''text'', \<lparr>description = ''Image with important text/typography'',
        engine = ''topaz'',
        topaz = \<lparr>model = ''Text Refine'', sharpen = 0.7, denoise = 0.2,
                  fix_compression = 0.5, face_enhancement = False\<rparr>,
        bloom = \<lparr>creativity = 1, face_preservation = False, color_preservation = True\<rparr>\<rparr>),
     (''creative'', \<lparr>description = ''Creative reimagining (adds details, more artistic)'',
        engine = ''bloom'',
        topaz = \<lparr>model = ''Standard V2'', sharpen = 0.5, denoise = 0.3,
                  fix_compression = 0.5, face_enhancement = False\<rparr>,
        bloom = \<lparr>creativity = 6, face_preservation = False, color_preservation = False\<rparr>\<rparr>)]"

text \<open>
  The upscale options of the command line as the user gave them: \<open>None\<close> (or \<open>False\<close> for
  a flag) for an option that was not given.
\<close>

record upscale_cli =
  cli_interactive :: bool
  cli_scale :: "int option"
  cli_engine :: "string option"
  cli_preset :: "string option"
  cli_upscale_model :: "string option"
  cli_sharpen :: "real option"
  cli_denoise :: "real option"
  cli_fix_compression :: "real option"
  cli_face_enhancement :: bool
  cli_creativity :: "int option"
  cli_face_preservation :: bool
  cli_color_preservation :: bool
  cli_upscale_prompt :: "string option"

text \<open>
  The namespace \<^verbatim>\<open>parse_args\<close> returns (lines 1012-1042): an option that was not given
  takes its \<^verbatim>\<open>default\<close>. An \<^verbatim>\<open>--engine\<close> or \<^verbatim>\<open>--preset\<close> outside its \<^verbatim>\<open>choices\<close>
  makes \<^verbatim>\<open>argparse\<close> exit, here \<open>None\<close>.
\<close>

record upscale_args =
  args_interactive :: bool
  args_scale :: int
  args_engine :: string
  args_preset :: "string option"
  args_upscale_model :: string
  args_sharpen :: real
  args_denoise :: real
  args_fix_compression :: real
  args_face_enhancement :: bool
  args_creativity :: int
  args_face_preservation :: bool
  args_color_preservation :: bool
  args_upscale_prompt :: string

definition or_else :: "'a option \<Rightarrow> 'a \<Rightarrow> 'a" where
  "or_else x d = (case x of None \<Rightarrow> d | Some v \<Rightarrow> v)"

definition parse_args :: "upscale_cli \<Rightarrow> upscale_args option" where
  "parse_args cli =
     (if (case cli_engine cli of None \<Rightarrow> False | Some e \<Rightarrow> e \<notin> set [''topaz'', ''bloom''])
         \<or> (case cli_preset cli of None \<Rightarrow> False | Some p \<Rightarrow> p \<notin> set (map fst UPSCALE_PRESETS))
         \<or> (case cli_upscale_model cli of None \<Rightarrow> False
              | Some m \<Rightarrow> m \<notin> set [''Standard V2'', ''Low Resolution V2'', ''CGI'',
                                    ''High Fidelity V2'', ''Text Refine''])
      then None
      else Some \<lparr>
        args_interactive = cli_interactive cli,
        args_scale = or_else (cli_scale cli) 2,
        args_engine = or_else (cli_engine cli) ''topaz'',
        args_preset = cli_preset cli,
        args_upscale_model = or_else (cli_upscale_model cli) ''Standard V2'',
        args_sharpen = or_else (cli_sharpen cli) 0.5,
        args_denoise = or_else (cli_denoise cli) 0.3,
        args_fix_compression = or_else (cli_fix_compression cli) 0.5,
        args_face_enhancement = cli_face_enhancement cli,
        args_creativity = or_else (cli_creativity cli) 3,
        args_face_preservation = cli_face_preservation cli,
        args_color_preservation = cli_color_preservation cli,
        args_upscale_prompt = or_else (cli_upscale_prompt cli) []\<rparr>)"

text \<open>
  The call \<^verbatim>\<open>main\<close> makes for an upscale (lines 1066-1113), with the arguments it
  passes; a parameter it leaves out takes the callee's default, written out here.
\<close>

datatype upscale_call =
    InteractiveUpscale string
  | UpscaleImage string int topaz_settings
      \<comment> \<open>\<^verbatim>\<open>upscale_image(url, scale_factor, model, sharpen, ...)\<close>\<close>
  | UpscaleBloom string int bloom_settings string
      \<comment> \<open>\<^verbatim>\<open>upscale_bloom(url, scale_factor, creativity, ..., prompt)\<close>\<close>

text \<open>Line 1071: the engine of a preset run.\<close>

definition preset_mode_engine :: "upscale_args \<Rightarrow> preset \<Rightarrow> string" where
  "preset_mode_engine args preset =
     (if args_engine args \<noteq> ''topaz'' then args_engine args else engine preset)"

definition upscale_dispatch :: "upscale_args \<Rightarrow> string \<Rightarrow> upscale_call option" where
  "upscale_dispatch args upscale_url =
     (if args_interactive args then Some (InteractiveUpscale upscale_url)
      else case args_preset args of
        Some key \<Rightarrow>
          (case map_of UPSCALE_PRESETS key of
             None \<Rightarrow> None  \<comment> \<open>\<^verbatim>\<open>KeyError\<close>; \<^verbatim>\<open>choices\<close> rules it out\<close>
           | Some preset \<Rightarrow>
               let engine = preset_mode_engine args preset in
               if engine = ''topaz''
               then Some (UpscaleImage upscale_url (args_scale args) (topaz preset))
               else Some (UpscaleBloom upscale_url (args_scale args) (bloom preset) []))
      | None \<Rightarrow>
          if args_engine args = ''bloom''
          then Some (UpscaleBloom upscale_url (args_scale args)
                 \<lparr>creativity = args_creativity args,
                  face_preservation = args_face_preservation args,
                  color_preservation = args_color_preservation args\<rparr>
                 (args_upscale_prompt args))
          else Some (UpscaleImage upscale_url (args_scale args)
                 \<lparr>model = args_upscale_model args, sharpen = args_sharpen args,
                  denoise = args_denoise args, fix_compression = args_fix_compression args,
                  face_enhancement = args_face_enhancement args\<rparr>))"

text \<open>
  The engine question of \<^verbatim>\<open>interactive_upscale\<close>, lines 870-881. \<open>inputs\<close> are the lines
  still to be read from standard input, already stripped; \<^verbatim>\<open>input\<close> raises
  \<^verbatim>\<open>EOFError\<close> when there is none, here \<open>None\<close>. The result is the engine and the
  lines left.
\<close>

fun interactive_engine :: "preset \<Rightarrow> string list \<Rightarrow> (string \<times> string list) option" where
  "interactive_engine preset [] = None"
| "interactive_engine preset (engine_input # inputs) =
     (if engine_input = [] then Some (engine preset, inputs)
      else if engine_input = ''1'' then Some (''topaz'', inputs)
      else if engine_input = ''2'' then Some (''bloom'', inputs)
      else interactive_engine preset inputs)"

text \<open>The command line of an upscale with no option given.\<close>

definition no_options :: upscale_cli where
  "no_options = \<lparr>cli_interactive = False, cli_scale = None, cli_engine = None,
     cli_preset = None, cli_upscale_model = None, cli_sharpen = None, cli_denoise = None,
     cli_fix_compression = None, cli_face_enhancement = False, cli_creativity = None,
     cli_face_preservation = False, cli_color_preservation = False,
     cli_upscale_prompt = None\<rparr>"

text \<open>\<^verbatim>\<open>main\<close> from the command line to the call: parse, then dispatch.\<close>

definition main_upscale :: "upscale_cli \<Rightarrow> string \<Rightarrow> upscale_call option" where
  "main_upscale cli upscale_url =
     (case parse_args cli of None \<Rightarrow> None | Some args \<Rightarrow> upscale_dispatch args upscale_url)"

section \<open>The provenance store\<close>

text \<open>
  The two files of the store: the log \<^verbatim>\<open>generation_log.jsonl\<close> and the latest record
  \<^verbatim>\<open>.last_image.json\<close>, each with its content, or \<open>None\<close> while it does not exist.
  Reads and writes are taken to succeed.
\<close>

record store =
  LOG_FILE :: "string option"
  LAST_IMAGE_FILE :: "string option"

definition newline :: char where
  "newline = CHR 0x0A"

definition file_content :: "string option \<Rightarrow> string" where
  "file_content f = (case f of None \<Rightarrow> [] | Some c \<Rightarrow> c)"

text \<open>
  \<^verbatim>\<open>log_generation\<close>, lines 174-177: the file is opened for appending, which creates it
  when missing. \<open>dumps\<close> is \<^verbatim>\<open>json.dumps\<close> of the standard library, a parameter of the
  model, as are \<open>dumps_indent\<close> (\<^verbatim>\<open>json.dumps(..., indent=2)\<close>) and \<open>loads\<close>
  (\<^verbatim>\<open>json.loads\<close>, \<open>None\<close> when it raises) below.
\<close>

definition log_generation :: "('r \<Rightarrow> string) \<Rightarrow> 'r \<Rightarrow> store \<Rightarrow> store" where
  "log_generation dumps entry st =
     st\<lparr>LOG_FILE := Some (file_content (LOG_FILE st) @ dumps entry @ [newline])\<rparr>"

text \<open>\<^verbatim>\<open>LAST_IMAGE_FILE.write_text(json.dumps(log_entry, indent=2))\<close>, lines 460, 637, 813.\<close>

definition write_last_image :: "('r \<Rightarrow> string) \<Rightarrow> 'r \<Rightarrow> store \<Rightarrow> store" where
  "write_last_image dumps_indent log_entry st =
     st\<lparr>LAST_IMAGE_FILE := Some (dumps_indent log_entry)\<rparr>"

text \<open>
  The append of a record as \<^verbatim>\<open>generate_image\<close> (lines 457-460), \<^verbatim>\<open>upscale_image\<close>
  (634-637) and \<^verbatim>\<open>upscale_bloom\<close> (810-813) all do it: the log first, then the latest
  record, with the same \<^verbatim>\<open>log_entry\<close>.
\<close>

definition append_record :: "('r \<Rightarrow> string) \<Rightarrow> ('r \<Rightarrow> string) \<Rightarrow> 'r \<Rightarrow> store \<Rightarrow> store" where
  "append_record dumps dumps_indent log_entry st =
     write_last_image dumps_indent log_entry (log_generation dumps log_entry st)"

text \<open>\<^verbatim>\<open>get_last_image_info\<close>, lines 984-988; \<open>Inl ()\<close> when \<^verbatim>\<open>json.loads\<close> raises.\<close>

definition get_last_image_info :: "(string \<Rightarrow> 'r option) \<Rightarrow> store \<Rightarrow> unit + 'r option" where
  "get_last_image_info loads st =
     (case LAST_IMAGE_FILE st of
        None \<Rightarrow> Inr None
      | Some content \<Rightarrow> (case loads content of None \<Rightarrow> Inl () | Some r \<Rightarrow> Inr (Some r)))"

text \<open>
  The lines of a log, as a reader of the file gets them: the text between newlines, a
  last line without its newline included. A log is terminated when it is empty or ends
  in a newline.
\<close>

definition log_lines :: "string \<Rightarrow> string list" where
  "log_lines content =
     (let parts = py_split newline content in if last parts = [] then butlast parts else parts)"

definition log_terminated :: "string \<Rightarrow> bool" where
  "log_terminated content = (content = [] \<or> last content = newline)"

text \<open>A codec for the one-field records \<open>True\<close> and \<open>False\<close>, to run the store on.\<close>

definition bool_dumps :: "bool \<Rightarrow> string" where
  "bool_dumps b = (if b then ''true'' else ''false'')"

definition bool_loads :: "string \<Rightarrow> bool option" where
  "bool_loads s = (if s = ''true'' then Some True else if s = ''false'' then Some False else None)"

section \<open>Verification: target dimensions\<close>

lemma upscale_image_source_dims_eq:
  assumes "valid_source_dim source_width" and "valid_source_dim source_height"
  shows "upscale_image_source_dims source_width source_height =
    (source_dim source_width, source_dim source_height)"
  using assms
  by (cases source_width; cases source_height)
     (simp_all add: upscale_image_source_dims_def or_default_def source_dim_def valid_source_dim_def)

lemma upscale_bloom_source_dims_eq:
  "upscale_bloom_source_dims source_width source_height =
    (source_dim source_width, source_dim source_height)"
  by (simp add: upscale_bloom_source_dims_def source_dim_def)

lemma source_dim_nonneg:
  "valid_source_dim d \<Longrightarrow> 0 \<le> source_dim d"
  by (cases d) (simp_all add: source_dim_def valid_source_dim_def)

lemma clamp_mono:
  fixes d :: int
  assumes "0 \<le> d" and "s \<le> s'"
  shows "min (d * s) cap \<le> min (d * s') cap"
proof -
  have "d * s \<le> d * s'" using assms by (rule mult_left_mono [OF _ _, rotated]) 
  then show ?thesis by (simp add: min_le_iff_disj)
qed

lemma upscale_image_target_dims_eq:
  assumes "valid_source_dim source_width" and "valid_source_dim source_height"
  shows "upscale_image_target_dims source_width source_height scale_factor =
           (min (source_dim source_width * scale_factor) 22000,
            min (source_dim source_height * scale_factor) 22000)"
  by (simp add: upscale_image_target_dims_def upscale_image_source_dims_eq [OF assms])

lemma upscale_bloom_target_dims_eq:
  "upscale_bloom_target_dims source_width source_height scale_factor =
           (min (source_dim source_width * scale_factor) 10000,
            min (source_dim source_height * scale_factor) 10000)"
  by (simp add: upscale_bloom_target_dims_def upscale_bloom_source_dims_eq)

text \<open>
  Claim C4. With supplied source dimensions positive (and 1024 standing in for a dimension
  that is not supplied), each target dimension is
  \<open>min (sourceDim * scaleFactor) cap\<close>, the cap being 22000 for Topaz and 10000 for Bloom;
  so it never exceeds the cap and does not decrease when the scale factor grows. A
  1024 by 1024 source at scale 32 gives 22000 by 22000 with Topaz.
\<close>

theorem target_dims_clamped:
  assumes "valid_source_dim source_width" and "valid_source_dim source_height"
  shows "upscale_image_target_dims source_width source_height scale_factor =
           (min (source_dim source_width * scale_factor) 22000,
            min (source_dim source_height * scale_factor) 22000)
       \<and> upscale_bloom_target_dims source_width source_height scale_factor =
           (min (source_dim source_width * scale_factor) 10000,
            min (source_dim source_height * scale_factor) 10000)
       \<and> fst (upscale_image_target_dims source_width source_height scale_factor) \<le> 22000
       \<and> snd (upscale_image_target_dims source_width source_height scale_factor) \<le> 22000
       \<and> fst (upscale_bloom_target_dims source_width source_height scale_factor) \<le> 10000
       \<and> snd (upscale_bloom_target_dims source_width source_height scale_factor) \<le> 10000
       \<and> (\<forall>scale_factor'. scale_factor \<le> scale_factor' \<longrightarrow>
            fst (upscale_image_target_dims source_width source_height scale_factor)
              \<le> fst (upscale_image_target_dims source_width source_height scale_factor')
          \<and> snd (upscale_image_target_dims source_width source_height scale_factor)
              \<le> snd (upscale_image_target_dims source_width source_height scale_factor')
          \<and> fst (upscale_bloom_target_dims source_width source_height scale_factor)
              \<le> fst (upscale_bloom_target_dims source_width source_height scale_factor')
          \<and> snd (upscale_bloom_target_dims source_width source_height scale_factor)
              \<le> snd (upscale_bloom_target_dims source_width source_height scale_factor'))
       \<and> upscale_image_target_dims (Some 1024) (Some 1024) 32 = (22000, 22000)"
proof -
  note t = upscale_image_target_dims_eq [OF assms]
  note b = upscale_bloom_target_dims_eq
  have w: "0 \<le> source_dim source_width" using assms(1) by (rule source_dim_nonneg)
  have h: "0 \<le> source_dim source_height" using assms(2) by (rule source_dim_nonneg)
  have caps: "fst (upscale_image_target_dims source_width source_height scale_factor) \<le> 22000"
    "snd (upscale_image_target_dims source_width source_height scale_factor) \<le> 22000"
    "fst (upscale_bloom_target_dims source_width source_height scale_factor) \<le> 10000"
    "snd (upscale_bloom_target_dims source_width source_height scale_factor) \<le> 10000"
    by (simp_all add: t b)
  have mono: "fst (upscale_image_target_dims source_width source_height scale_factor)
              \<le> fst (upscale_image_target_dims source_width source_height scale_factor')
          \<and> snd (upscale_image_target_dims source_width source_height scale_factor)
              \<le> snd (upscale_image_target_dims source_width source_height scale_factor')
          \<and> fst (upscale_bloom_target_dims source_width source_height scale_factor)
              \<le> fst (upscale_bloom_target_dims source_width source_height scale_factor')
          \<and> snd (upscale_bloom_target_dims source_width source_height scale_factor)
              \<le> snd (upscale_bloom_target_dims source_width source_height scale_factor')"
    if "scale_factor \<le> scale_factor'" for scale_factor'
    using clamp_mono [OF w that] clamp_mono [OF h that] by (simp add: t b)
  have ex: "upscale_image_target_dims (Some 1024) (Some 1024) 32 = (22000, 22000)"
    by (simp add: upscale_image_target_dims_def upscale_image_source_dims_def)
  from t b caps mono ex show ?thesis by blast
qed

theorem target_dims_clamped_witness:
  "valid_source_dim (Some 1024) \<and> valid_source_dim None \<and> (2::int) \<le> 32
   \<and> upscale_image_target_dims (Some 1024) None 2 = (2048, 2048)
   \<and> upscale_bloom_target_dims (Some 1024) None 2 = (2048, 2048)
   \<and> fst (upscale_image_target_dims (Some 1024) None 2)
       \<le> fst (upscale_image_target_dims (Some 1024) None 32)"
proof -
  have p: "valid_source_dim (Some 1024)" by (simp add: valid_source_dim_def)
  have q: "valid_source_dim None" by (simp add: valid_source_dim_def)
  have s: "(2::int) \<le> 32" by simp
  from target_dims_clamped [OF p q, of 2] s
  have "fst (upscale_image_target_dims (Some 1024) None 2)
       \<le> fst (upscale_image_target_dims (Some 1024) None 32)" by blast
  then show ?thesis
    using p q s target_dims_clamped [OF p q, of 2] by (simp add: source_dim_def)
qed


section \<open>Verification: slugs\<close>

subsection \<open>Character classes\<close>

lemma code_point_hyphen: "code_point CHR ''-'' = 45"
  by (simp add: code_point_def)

lemma code_point_underscore: "code_point CHR ''_'' = 95"
  by (simp add: code_point_def)

lemma alnum_not_hyphen: "is_lower_alnum c \<Longrightarrow> c \<noteq> CHR ''-''"
  by (auto simp: is_lower_alnum_def code_point_hyphen Let_def)

lemma alnum_not_space: "is_lower_alnum c \<Longrightarrow> \<not> is_space c"
  by (auto simp: is_lower_alnum_def is_space_def Let_def)

lemma hyphen_not_space: "\<not> is_space CHR ''-''"
  by (simp add: is_space_def code_point_hyphen)

lemma underscore_not_kept: "\<not> is_lower_alnum CHR ''_''" "\<not> is_space CHR ''_''"
  by (simp_all add: is_lower_alnum_def is_space_def code_point_underscore)

lemma slug_char_not_space: "slug_char c \<Longrightarrow> \<not> is_space c"
  by (auto simp: slug_char_def alnum_not_space hyphen_not_space)

lemma slug_char_not_underscore: "slug_char c \<Longrightarrow> c \<noteq> CHR ''_''"
  using underscore_not_kept by (auto simp: slug_char_def)

lemma lower_char_alnum: "is_lower_alnum c \<Longrightarrow> lower_char c = c"
  by (auto simp: is_lower_alnum_def lower_char_def Let_def)

lemma lower_char_hyphen: "lower_char CHR ''-'' = CHR ''-''"
  by (simp add: lower_char_def code_point_hyphen)

lemma lower_char_slug_char: "slug_char c \<Longrightarrow> lower_char c = c"
  by (auto simp: slug_char_def lower_char_alnum lower_char_hyphen)

subsection \<open>strip\<close>

lemma py_rstrip_take: "py_rstrip P s = take (length s - length (takeWhile P (rev s))) s"
  by (simp add: py_rstrip_def dropWhile_eq_drop rev_drop)

lemma py_lstrip_drop: "py_lstrip P s = drop (length (takeWhile P s)) s"
  by (simp add: py_lstrip_def dropWhile_eq_drop)

lemma set_py_strip: "set (py_strip P s) \<subseteq> set s"
proof -
  have "set (py_strip P s) \<subseteq> set (py_lstrip P s)"
    unfolding py_strip_def py_rstrip_take by (rule set_take_subset)
  also have "\<dots> \<subseteq> set s"
    unfolding py_lstrip_drop by (rule set_drop_subset)
  finally show ?thesis .
qed

lemma successively_take: "successively R s \<Longrightarrow> successively R (take n s)"
  using successively_append_iff [of R "take n s" "drop n s"] by simp

lemma successively_drop: "successively R s \<Longrightarrow> successively R (drop n s)"
  using successively_append_iff [of R "take n s" "drop n s"] by simp

lemma no_double_hyphen_strip: "no_double_hyphen s \<Longrightarrow> no_double_hyphen (py_strip P s)"
  unfolding no_double_hyphen_def py_strip_def py_rstrip_take py_lstrip_drop
  by (intro successively_take successively_drop)

lemma py_strip_ends:
  assumes "py_strip P s \<noteq> []"
  shows "\<not> P (hd (py_strip P s))" and "\<not> P (last (py_strip P s))"
proof -
  let ?t = "py_lstrip P s"
  from assms have t: "?t \<noteq> []"
    by (auto simp: py_strip_def py_rstrip_def)
  from assms have d: "dropWhile P (rev ?t) \<noteq> []"
    by (simp add: py_strip_def py_rstrip_def)
  have "last (py_strip P s) = hd (dropWhile P (rev ?t))"
    using d by (simp add: py_strip_def py_rstrip_def last_rev)
  then show "\<not> P (last (py_strip P s))"
    using hd_dropWhile [OF d] by simp
  have "hd (py_strip P s) = hd ?t"
    using assms unfolding py_strip_def py_rstrip_take by simp
  moreover have "\<not> P (hd ?t)"
    using t unfolding py_lstrip_def by (rule hd_dropWhile)
  ultimately show "\<not> P (hd (py_strip P s))" by simp
qed

lemma py_strip_id:
  assumes "s = [] \<or> (\<not> P (hd s) \<and> \<not> P (last s))"
  shows "py_strip P s = s"
proof (cases s rule: rev_cases)
  case Nil
  then show ?thesis by (simp add: py_strip_def py_rstrip_def py_lstrip_def)
next
  case (snoc ys y)
  with assms have h: "\<not> P (hd s)" and y: "\<not> P y" by auto
  from snoc have "s \<noteq> []" by simp
  with h have 1: "py_lstrip P s = s" by (cases s) (simp_all add: py_lstrip_def)
  have "dropWhile P (rev s) = rev s" using y snoc by simp
  then show ?thesis by (simp add: py_strip_def py_rstrip_def 1)
qed

subsection \<open>re.sub\<close>

lemma set_re_sub_runs: "set (re_sub_runs P r s) \<subseteq> {c \<in> set s. \<not> P c} \<union> set r"
  by (induction P r s rule: re_sub_runs.induct) (auto dest: set_dropWhileD)

lemma re_sub_runs_id: "\<forall>c \<in> set s. \<not> P c \<Longrightarrow> re_sub_runs P r s = s"
  by (induction s) auto

lemma re_sub_runs_hd:
  "s \<noteq> [] \<Longrightarrow> \<not> P (hd s) \<Longrightarrow> re_sub_runs P r s \<noteq> [] \<and> hd (re_sub_runs P r s) = hd s"
  by (cases s) auto

lemma collapse_hyphens_no_double:
  "no_double_hyphen (re_sub_runs (\<lambda>c. c = CHR ''-'') ''-'' s)"
proof (induction "\<lambda>c. c = CHR ''-''" "''-''" s rule: re_sub_runs.induct)
  case 1
  show ?case by (simp add: no_double_hyphen_def)
next
  case (2 c cs)
  let ?P = "\<lambda>c. c = CHR ''-''"
  show ?case
  proof (cases "c = CHR ''-''")
    case True
    let ?d = "dropWhile ?P cs"
    have ih: "no_double_hyphen (re_sub_runs ?P ''-'' ?d)" using 2(1) True by simp
    have "re_sub_runs ?P ''-'' ?d = [] \<or> hd (re_sub_runs ?P ''-'' ?d) \<noteq> CHR ''-''"
    proof (cases "?d = []")
      case True
      then have "re_sub_runs ?P ''-'' ?d = []" by (simp only: re_sub_runs.simps)
      then show ?thesis ..
    next
      case False
      then have "\<not> ?P (hd ?d)" by (rule hd_dropWhile)
      with False show ?thesis using re_sub_runs_hd [of ?d ?P "''-''"] by simp
    qed
    with ih True show ?thesis
      by (auto simp: no_double_hyphen_def successively_Cons)
  next
    case False
    with 2(2) show ?thesis
      by (auto simp: no_double_hyphen_def successively_Cons)
  qed
qed

lemma collapse_hyphens_id:
  "no_double_hyphen s \<Longrightarrow> re_sub_runs (\<lambda>c. c = CHR ''-'') ''-'' s = s"
proof (induction s)
  case Nil
  show ?case by simp
next
  case (Cons c cs)
  then have ih: "re_sub_runs (\<lambda>c. c = CHR ''-'') ''-'' cs = cs"
    by (auto simp: no_double_hyphen_def successively_Cons)
  show ?case
  proof (cases "c = CHR ''-''")
    case True
    with Cons.prems have "cs = [] \<or> hd cs \<noteq> CHR ''-''"
      by (auto simp: no_double_hyphen_def successively_Cons)
    then have "dropWhile (\<lambda>c. c = CHR ''-'') cs = cs" by (cases cs) auto
    with True ih show ?thesis by simp
  next
    case False
    with ih show ?thesis by simp
  qed
qed


subsection \<open>The cleaned slug\<close>

lemma slug_cleaned_chars: "list_all slug_char (slug_cleaned t)"
proof -
  let ?keep = "\<lambda>c. is_lower_alnum c \<or> is_space c \<or> c = CHR ''-''"
  let ?s1 = "py_strip is_space (py_lower t)"
  let ?s2 = "re_sub_delete ?keep ?s1"
  let ?s3 = "re_sub_runs (\<lambda>c. is_space c \<or> c = CHR ''_'') ''-'' ?s2"
  let ?s4 = "re_sub_runs (\<lambda>c. c = CHR ''-'') ''-'' ?s3"
  have 2: "\<forall>c \<in> set ?s2. ?keep c" by (simp add: re_sub_delete_def)
  have 3: "\<forall>c \<in> set ?s3. slug_char c"
  proof
    fix c assume "c \<in> set ?s3"
    then have "(c \<in> set ?s2 \<and> \<not> (is_space c \<or> c = CHR ''_'')) \<or> c = CHR ''-''"
      using set_re_sub_runs [of "\<lambda>c. is_space c \<or> c = CHR ''_''" "''-''" ?s2] by auto
    with 2 show "slug_char c" by (auto simp: slug_char_def)
  qed
  have 4: "\<forall>c \<in> set ?s4. slug_char c"
  proof
    fix c assume "c \<in> set ?s4"
    then have "c \<in> set ?s3 \<or> c = CHR ''-''"
      using set_re_sub_runs [of "\<lambda>c. c = CHR ''-''" "''-''" ?s3] by auto
    with 3 show "slug_char c" by (auto simp: slug_char_def)
  qed
  have "set (slug_cleaned t) \<subseteq> set ?s4"
    unfolding slug_cleaned_def Let_def by (rule set_py_strip)
  with 4 show ?thesis by (auto simp: list_all_iff)
qed

lemma slug_cleaned_no_double: "no_double_hyphen (slug_cleaned t)"
  unfolding slug_cleaned_def Let_def
  by (intro no_double_hyphen_strip collapse_hyphens_no_double)

lemma slug_cleaned_ends:
  assumes "slug_cleaned t \<noteq> []"
  shows "hd (slug_cleaned t) \<noteq> CHR ''-''" and "last (slug_cleaned t) \<noteq> CHR ''-''"
  using assms py_strip_ends [where P = "\<lambda>c. c = CHR ''-''"]
  unfolding slug_cleaned_def Let_def by blast+

lemma slug_cleaned_well_formed: "slug_cleaned t \<noteq> [] \<Longrightarrow> well_formed_slug (slug_cleaned t)"
  by (simp add: well_formed_slug_def slug_cleaned_chars slug_cleaned_no_double slug_cleaned_ends)

subsection \<open>Truncation\<close>

lemma startswith_append: "startswith (p @ r) p"
  by (induction p) auto

lemma startswith_prefix: "startswith s p \<longleftrightarrow> (\<exists>r. s = p @ r)"
  by (induction s p rule: startswith.induct) auto

lemma rsplit1_head_split:
  assumes "sep \<in> set s"
  shows "\<exists>post. s = rsplit1_head sep s @ sep # post \<and> sep \<notin> set post"
proof -
  let ?Q = "\<lambda>c. c \<noteq> sep"
  let ?d = "dropWhile ?Q (rev s)"
  from assms have d: "?d \<noteq> []" by (auto simp: dropWhile_eq_Nil_conv)
  then have "\<not> ?Q (hd ?d)" by (rule hd_dropWhile)
  with d have dsplit: "?d = sep # tl ?d" by (cases ?d) auto
  have "rev s = takeWhile ?Q (rev s) @ ?d" by simp
  then have "rev s = takeWhile ?Q (rev s) @ sep # tl ?d" using dsplit by simp
  then have "rev (rev s) = rev (takeWhile ?Q (rev s) @ sep # tl ?d)" by (rule arg_cong)
  then have "s = rev (tl ?d) @ sep # rev (takeWhile ?Q (rev s))" by simp
  moreover have "sep \<notin> set (rev (takeWhile ?Q (rev s)))"
    by (auto dest: set_takeWhileD)
  ultimately show ?thesis using assms unfolding rsplit1_head_def by auto
qed

lemma well_formed_slug_image: "well_formed_slug ''image''"
  by (simp add: well_formed_slug_def slug_char_def is_lower_alnum_def code_point_def
      no_double_hyphen_def)

text \<open>The truncation step, on a well-formed cleaned slug longer than the maximum.\<close>

lemma truncate_hyphen:
  assumes wf: "well_formed_slug c" and h: "CHR ''-'' \<in> set (take n c)"
  shows "well_formed_slug (rsplit1_head CHR ''-'' (take n c))"
    and "length (rsplit1_head CHR ''-'' (take n c)) \<le> n"
    and "cut_at_word_boundary c (rsplit1_head CHR ''-'' (take n c))"
proof -
  let ?pre = "rsplit1_head CHR ''-'' (take n c)"
  from rsplit1_head_split [OF h] obtain post
    where tk: "take n c = ?pre @ CHR ''-'' # post" by blast
  have c: "c = ?pre @ CHR ''-'' # (post @ drop n c)"
    by (metis tk append_take_drop_id append.assoc append_Cons)
  from wf have ne: "c \<noteq> []" and ch: "list_all slug_char c" and nd: "no_double_hyphen c"
    and hd: "hd c \<noteq> CHR ''-''" by (auto simp: well_formed_slug_def)
  have pre_ne: "?pre \<noteq> []"
  proof
    assume "?pre = []"
    with c have "hd c = CHR ''-''" by (metis append_Nil list.sel(1))
    with hd show False by simp
  qed
  have pre_ch: "list_all slug_char ?pre"
    using ch by (subst (asm) c) simp
  have nd': "successively (\<lambda>a b. \<not> (a = CHR ''-'' \<and> b = CHR ''-'')) (?pre @ CHR ''-'' # (post @ drop n c))"
    using nd c unfolding no_double_hyphen_def by simp
  have pre_nd: "no_double_hyphen ?pre" and pre_last: "last ?pre \<noteq> CHR ''-''"
    using nd' pre_ne unfolding no_double_hyphen_def successively_append_iff by auto
  have pre_hd: "hd ?pre \<noteq> CHR ''-''"
    using hd pre_ne by (subst (asm) c) simp
  show "well_formed_slug ?pre"
    by (simp add: well_formed_slug_def pre_ne pre_ch pre_nd pre_hd pre_last)
  have "length (take n c) = length ?pre + 1 + length post"
    by (subst tk) simp
  then show "length ?pre \<le> n" by simp
  have "startswith c (?pre @ ''-'')"
    unfolding startswith_prefix using c by auto
  then show "cut_at_word_boundary c ?pre" by (simp add: cut_at_word_boundary_def)
qed

lemma truncate_no_hyphen:
  assumes wf: "well_formed_slug c" and h: "CHR ''-'' \<notin> set (take n c)" and n: "0 < n"
  shows "well_formed_slug (take n c)"
proof -
  from wf have ne: "c \<noteq> []" and ch: "list_all slug_char c" and nd: "no_double_hyphen c"
    and hd: "hd c \<noteq> CHR ''-''" by (auto simp: well_formed_slug_def)
  have 1: "take n c \<noteq> []" using ne n by simp
  have 2: "list_all slug_char (take n c)"
    using ch set_take_subset [of n c] by (auto simp: list_all_iff)
  have 3: "no_double_hyphen (take n c)"
    using nd unfolding no_double_hyphen_def by (rule successively_take)
  have 4: "hd (take n c) \<noteq> CHR ''-''" using hd n ne by (cases c) (simp_all add: take_Cons')
  have "last (take n c) \<in> set (take n c)" using 1 by (rule last_in_set)
  with h have 5: "last (take n c) \<noteq> CHR ''-''" by auto
  show ?thesis unfolding well_formed_slug_def using 1 2 3 4 5 by blast
qed


subsection \<open>slugify\<close>

lemma py_slice_to_nonneg: "0 \<le> n \<Longrightarrow> py_slice_to n s = take (nat n) s"
  by (simp add: py_slice_to_def)

text \<open>The three cases of \<open>slugify\<close>.\<close>

lemma slugify_empty: "slug_cleaned t = [] \<Longrightarrow> slugify t = ''image''"
  by (simp add: slugify_def slugify_len_def)

lemma slugify_short:
  "slug_cleaned t \<noteq> [] \<Longrightarrow> length (slug_cleaned t) \<le> 50 \<Longrightarrow> slugify t = slug_cleaned t"
  by (simp add: slugify_def slugify_len_def)

lemma slugify_long:
  assumes "50 < length (slug_cleaned t)"
  shows "slugify t =
     (let r = rsplit1_head CHR ''-'' (take 50 (slug_cleaned t)) in if r = [] then ''image'' else r)"
  using assms by (simp add: slugify_def slugify_len_def py_slice_to_nonneg Let_def)

lemma slugify_long_hyphen:
  assumes "50 < length (slug_cleaned t)" and "CHR ''-'' \<in> set (take 50 (slug_cleaned t))"
  shows "slugify t = rsplit1_head CHR ''-'' (take 50 (slug_cleaned t))"
proof -
  from assms(1) have "slug_cleaned t \<noteq> []" by auto
  then have "well_formed_slug (slug_cleaned t)" by (rule slug_cleaned_well_formed)
  from truncate_hyphen(1) [OF this assms(2)]
  have "rsplit1_head CHR ''-'' (take 50 (slug_cleaned t)) \<noteq> []"
    by (auto simp: well_formed_slug_def)
  then show ?thesis using slugify_long [OF assms(1)] by (simp add: Let_def)
qed

lemma slugify_long_no_hyphen:
  assumes "50 < length (slug_cleaned t)" and "CHR ''-'' \<notin> set (take 50 (slug_cleaned t))"
  shows "slugify t = take 50 (slug_cleaned t)"
proof -
  from assms(1) have "take 50 (slug_cleaned t) \<noteq> []" by auto
  moreover have "rsplit1_head CHR ''-'' (take 50 (slug_cleaned t)) = take 50 (slug_cleaned t)"
    using assms(2) by (simp add: rsplit1_head_def)
  ultimately show ?thesis using slugify_long [OF assms(1)] by (simp add: Let_def)
qed

lemma slugify_well_formed: "well_formed_slug (slugify t)"
proof -
  let ?c = "slug_cleaned t"
  consider (empty) "?c = []" | (short) "?c \<noteq> []" "length ?c \<le> 50"
    | (hy) "50 < length ?c" "CHR ''-'' \<in> set (take 50 ?c)"
    | (nohy) "50 < length ?c" "CHR ''-'' \<notin> set (take 50 ?c)"
    by fastforce
  then show ?thesis
  proof cases
    case empty
    then show ?thesis by (simp add: slugify_empty well_formed_slug_image)
  next
    case short
    then show ?thesis by (simp add: slugify_short slug_cleaned_well_formed)
  next
    case hy
    then have "well_formed_slug ?c" by (intro slug_cleaned_well_formed) auto
    from truncate_hyphen(1) [OF this hy(2)] show ?thesis
      by (simp add: slugify_long_hyphen [OF hy])
  next
    case nohy
    then have "well_formed_slug ?c" by (intro slug_cleaned_well_formed) auto
    from truncate_no_hyphen [OF this nohy(2)] show ?thesis
      by (simp add: slugify_long_no_hyphen [OF nohy])
  qed
qed

lemma slugify_length: "length (slugify t) \<le> 50"
proof -
  let ?c = "slug_cleaned t"
  consider (empty) "?c = []" | (short) "?c \<noteq> []" "length ?c \<le> 50"
    | (hy) "50 < length ?c" "CHR ''-'' \<in> set (take 50 ?c)"
    | (nohy) "50 < length ?c" "CHR ''-'' \<notin> set (take 50 ?c)"
    by fastforce
  then show ?thesis
  proof cases
    case empty
    then show ?thesis by (simp add: slugify_empty)
  next
    case short
    then show ?thesis by (simp add: slugify_short)
  next
    case hy
    then have "well_formed_slug ?c" by (intro slug_cleaned_well_formed) auto
    from truncate_hyphen(2) [OF this hy(2)] show ?thesis
      by (simp add: slugify_long_hyphen [OF hy])
  next
    case nohy
    then show ?thesis by (simp add: slugify_long_no_hyphen [OF nohy])
  qed
qed

lemma slugify_word_boundary:
  assumes "slug_cleaned t \<noteq> []"
    and "length (slug_cleaned t) \<le> 50 \<or> CHR ''-'' \<in> set (take 50 (slug_cleaned t))"
  shows "cut_at_word_boundary (slug_cleaned t) (slugify t)"
proof (cases "length (slug_cleaned t) \<le> 50")
  case True
  with assms(1) show ?thesis by (simp add: slugify_short cut_at_word_boundary_def)
next
  case False
  with assms have hy: "50 < length (slug_cleaned t)" "CHR ''-'' \<in> set (take 50 (slug_cleaned t))"
    by auto
  have "well_formed_slug (slug_cleaned t)" using assms(1) by (rule slug_cleaned_well_formed)
  from truncate_hyphen(3) [OF this hy(2)] show ?thesis
    by (simp add: slugify_long_hyphen [OF hy])
qed

subsection \<open>Idempotence\<close>

lemma slug_cleaned_id:
  assumes "well_formed_slug s"
  shows "slug_cleaned s = s"
proof -
  from assms have ne: "s \<noteq> []" and ch: "\<forall>c \<in> set s. slug_char c" and nd: "no_double_hyphen s"
    and hd: "hd s \<noteq> CHR ''-''" and lst: "last s \<noteq> CHR ''-''"
    by (auto simp: well_formed_slug_def list_all_iff)
  have 0: "py_lower s = s"
    unfolding py_lower_def using ch by (simp add: map_idI lower_char_slug_char)
  have "hd s \<in> set s" "last s \<in> set s" using ne by simp_all
  with ch have "\<not> is_space (hd s)" "\<not> is_space (last s)"
    by (auto dest: slug_char_not_space)
  then have 1: "py_strip is_space s = s" by (intro py_strip_id) simp
  have 2: "re_sub_delete (\<lambda>c. is_lower_alnum c \<or> is_space c \<or> c = CHR ''-'') s = s"
    unfolding re_sub_delete_def using ch by (auto simp: slug_char_def filter_id_conv)
  have 3: "re_sub_runs (\<lambda>c. is_space c \<or> c = CHR ''_'') ''-'' s = s"
    using ch by (intro re_sub_runs_id) (auto dest: slug_char_not_space slug_char_not_underscore)
  have 4: "re_sub_runs (\<lambda>c. c = CHR ''-'') ''-'' s = s"
    using nd by (rule collapse_hyphens_id)
  have 5: "py_strip (\<lambda>c. c = CHR ''-'') s = s"
    using hd lst by (intro py_strip_id) simp
  show ?thesis by (simp add: slug_cleaned_def 0 1 2 3 4 5)
qed

lemma slugify_fixed_point:
  assumes "well_formed_slug s" and "length s \<le> 50"
  shows "slugify s = s"
proof -
  have "slug_cleaned s = s" using assms(1) by (rule slug_cleaned_id)
  moreover have "s \<noteq> []" using assms(1) by (simp add: well_formed_slug_def)
  ultimately show ?thesis using assms(2) by (simp add: slugify_short)
qed

text \<open>
  Claim C5, as the code has it. For every text, the slug is non-empty, holds only
  lower-case letters, digits and hyphens, has no two hyphens in a row and none at either
  end, and is at most 50 characters long; it is \<open>image\<close> when the cleaned text is empty.
  When the cleaned text fits in 50 characters, or its first 50 characters hold a hyphen,
  the slug ends at a word boundary of the cleaned text. When the cleaned text is longer
  than 50 characters and its first 50 characters hold no hyphen, the slug is exactly
  those 50 characters.
\<close>

theorem slugify_shape:
  "well_formed_slug (slugify t) \<and> length (slugify t) \<le> 50
   \<and> (slug_cleaned t = [] \<longrightarrow> slugify t = ''image'')
   \<and> (slug_cleaned t \<noteq> [] \<and>
        (length (slug_cleaned t) \<le> 50 \<or> CHR ''-'' \<in> set (take 50 (slug_cleaned t)))
        \<longrightarrow> cut_at_word_boundary (slug_cleaned t) (slugify t))
   \<and> (50 < length (slug_cleaned t) \<and> CHR ''-'' \<notin> set (take 50 (slug_cleaned t))
        \<longrightarrow> slugify t = take 50 (slug_cleaned t))"
  using slugify_well_formed [of t] slugify_length [of t] slugify_empty [of t]
    slugify_word_boundary [of t] slugify_long_no_hyphen [of t]
  by blast

theorem slugify_shape_witness:
  "slug_cleaned ''!!!'' = [] \<and> slugify ''!!!'' = ''image''
   \<and> slug_cleaned ''A red bicycle'' \<noteq> [] \<and> length (slug_cleaned ''A red bicycle'') \<le> 50
   \<and> cut_at_word_boundary (slug_cleaned ''A red bicycle'') (slugify ''A red bicycle'')
   \<and> well_formed_slug (slugify ''A red bicycle'')
   \<and> 50 < length (slug_cleaned (replicate 51 CHR ''a''))
   \<and> CHR ''-'' \<notin> set (take 50 (slug_cleaned (replicate 51 CHR ''a'')))
   \<and> slugify (replicate 51 CHR ''a'') = take 50 (slug_cleaned (replicate 51 CHR ''a''))"
proof -
  have 1: "slug_cleaned ''!!!'' = []" by code_simp
  have 2: "slug_cleaned ''A red bicycle'' = ''a-red-bicycle''" by code_simp
  have 3: "slug_cleaned (replicate 51 CHR ''a'') = replicate 51 CHR ''a''" by code_simp
  have 4: "CHR ''-'' \<notin> set (take 50 (replicate 51 CHR ''a''))" by simp
  show ?thesis
    using slugify_shape [of "''!!!''"] slugify_shape [of "''A red bicycle''"]
      slugify_shape [of "replicate 51 CHR ''a''"] 4
    unfolding 1 2 3 by simp
qed

text \<open>
  The claim as stated fails: a cleaned text of 51 letters \<open>a\<close> is cut to its first 50
  letters, in the middle of its only word.
\<close>

theorem slugify_splits_long_word:
  "slug_cleaned (replicate 51 CHR ''a'') = replicate 51 CHR ''a''
   \<and> slugify (replicate 51 CHR ''a'') = replicate 50 CHR ''a''
   \<and> \<not> cut_at_word_boundary (slug_cleaned (replicate 51 CHR ''a''))
         (slugify (replicate 51 CHR ''a''))"
  by code_simp

text \<open>
  Claim C6. Applying \<open>slugify\<close> to its own output returns that output unchanged.
\<close>

theorem slugify_idempotent: "slugify (slugify t) = slugify t"
  by (intro slugify_fixed_point slugify_well_formed slugify_length)

theorem slugify_idempotent_witness:
  "slugify (slugify ''  --Hello,   World__ (2024)!! --'') = ''hello-world-2024''"
proof -
  have "slugify ''  --Hello,   World__ (2024)!! --'' = ''hello-world-2024''" by code_simp
  with slugify_idempotent [of "''  --Hello,   World__ (2024)!! --''"] show ?thesis by simp
qed


section \<open>Verification: submission\<close>

lemma submitted_job_id_401: "status_code r = 401 \<Longrightarrow> submitted_job_id r = Inl InvalidApiKey"
  by (simp add: submitted_job_id_def)

lemma submitted_job_id_402: "status_code r = 402 \<Longrightarrow> submitted_job_id r = Inl InsufficientCredits"
  by (simp add: submitted_job_id_def)

lemma submitted_job_id_other:
  "status_code r \<noteq> 200 \<Longrightarrow> status_code r \<noteq> 401 \<Longrightarrow> status_code r \<noteq> 402 \<Longrightarrow>
   submitted_job_id r = Inl (ApiRequestFailed (status_code r) (text r))"
  by (simp add: submitted_job_id_def)

lemma submitted_job_id_missing:
  "status_code r = 200 \<Longrightarrow> json_body r = Some (JObj kvs) \<Longrightarrow>
   (case map_of kvs ''job_id'' of None \<Rightarrow> True | Some j \<Rightarrow> \<not> truthy j) \<Longrightarrow>
   submitted_job_id r = Inl (NoJobId (JObj kvs))"
  by (auto simp: submitted_job_id_def json_get_def split: option.splits)

lemma submitted_job_id_present:
  "status_code r = 200 \<Longrightarrow> json_body r = Some (JObj kvs) \<Longrightarrow>
   map_of kvs ''job_id'' = Some j \<Longrightarrow> truthy j \<Longrightarrow> submitted_job_id r = Inr j"
  by (auto simp: submitted_job_id_def json_get_def split: option.splits)

lemma submitted_job_id_not_json:
  "status_code r = 200 \<Longrightarrow> json_body r = None \<Longrightarrow> submitted_job_id r = Inl JSONDecodeError"
  by (simp add: submitted_job_id_def json_get_def)

lemma submitted_job_id_not_object:
  "status_code r = 200 \<Longrightarrow> json_body r = Some data \<Longrightarrow> \<not> is_json_object data \<Longrightarrow>
   submitted_job_id r = Inl (AttributeError data)"
  by (cases data) (simp_all add: submitted_job_id_def json_get_def is_json_object_def)

lemma submitted_job_id_success_iff:
  "submitted_job_id r = Inr j \<longleftrightarrow>
     status_code r = 200 \<and>
     (\<exists>kvs. json_body r = Some (JObj kvs) \<and> map_of kvs ''job_id'' = Some j \<and> truthy j)"
  by (auto simp: submitted_job_id_def json_get_def
      split: if_splits option.splits json.splits sum.splits)

text \<open>
  Claim C3, as the code has it, for every submission response. Status 401 fails with the
  authentication error, 402 with the billing error, and any other status but 200 with the
  generic API error carrying the status and the raw body. A 200 response whose body is
  not JSON fails with the decode error of the parser, and one whose body is JSON but not
  an object with the attribute error of \<^verbatim>\<open>.get\<close>. A 200 response whose body is a JSON
  object with no \<^verbatim>\<open>job_id\<close>, or with a \<^verbatim>\<open>job_id\<close> that Python counts as false (null,
  empty), fails with the submission error. A 200 response whose body is a JSON object
  with a true \<^verbatim>\<open>job_id\<close> does not fail, and yields it; no other response succeeds.
\<close>

theorem submission_outcomes:
  "(status_code r = 401 \<longrightarrow> submitted_job_id r = Inl InvalidApiKey)
   \<and> (status_code r = 402 \<longrightarrow> submitted_job_id r = Inl InsufficientCredits)
   \<and> (status_code r \<noteq> 200 \<and> status_code r \<noteq> 401 \<and> status_code r \<noteq> 402 \<longrightarrow>
        submitted_job_id r = Inl (ApiRequestFailed (status_code r) (text r)))
   \<and> (status_code r = 200 \<and> json_body r = None \<longrightarrow>
        submitted_job_id r = Inl JSONDecodeError)
   \<and> (status_code r = 200 \<and> json_body r = Some data \<and> \<not> is_json_object data \<longrightarrow>
        submitted_job_id r = Inl (AttributeError data))
   \<and> (status_code r = 200 \<and> json_body r = Some (JObj kvs)
        \<and> (case map_of kvs ''job_id'' of None \<Rightarrow> True | Some j \<Rightarrow> \<not> truthy j) \<longrightarrow>
        submitted_job_id r = Inl (NoJobId (JObj kvs)))
   \<and> (status_code r = 200 \<and> json_body r = Some (JObj kvs)
        \<and> map_of kvs ''job_id'' = Some j \<and> truthy j \<longrightarrow>
        submitted_job_id r = Inr j)
   \<and> (submitted_job_id r = Inr j \<longleftrightarrow>
        status_code r = 200 \<and>
        (\<exists>kvs. json_body r = Some (JObj kvs) \<and> map_of kvs ''job_id'' = Some j \<and> truthy j))"
  using submitted_job_id_401 [of r] submitted_job_id_402 [of r] submitted_job_id_other [of r]
    submitted_job_id_not_json [of r] submitted_job_id_not_object [of r data]
    submitted_job_id_missing [of r kvs] submitted_job_id_present [of r kvs j]
    submitted_job_id_success_iff [of r j]
  by blast

theorem submission_outcomes_witness:
  "submitted_job_id \<lparr>status_code = 401, text = ''unauthorized'', json_body = None\<rparr>
     = Inl InvalidApiKey
   \<and> submitted_job_id \<lparr>status_code = 402, text = ''payment required'', json_body = None\<rparr>
     = Inl InsufficientCredits
   \<and> submitted_job_id \<lparr>status_code = 500, text = ''oops'', json_body = None\<rparr>
     = Inl (ApiRequestFailed 500 ''oops'')
   \<and> submitted_job_id \<lparr>status_code = 200, text = ''<html>'', json_body = None\<rparr>
     = Inl JSONDecodeError
   \<and> \<not> is_json_object (JArr [])
   \<and> submitted_job_id \<lparr>status_code = 200, text = ''[]'', json_body = Some (JArr [])\<rparr>
     = Inl (AttributeError (JArr []))
   \<and> submitted_job_id \<lparr>status_code = 200, text = ''{}'', json_body = Some (JObj [])\<rparr>
     = Inl (NoJobId (JObj []))
   \<and> truthy (JStr ''abc'')
   \<and> submitted_job_id \<lparr>status_code = 200, text = ''{'' @ [CHR 0x22] @ ''job_id'' @ [CHR 0x22] @ '': '' @ [CHR 0x22] @ ''abc'' @ [CHR 0x22] @ ''}'',
        json_body = Some (JObj [(''job_id'', JStr ''abc'')])\<rparr>
     = Inr (JStr ''abc'')"
proof -
  have o: "\<not> is_json_object (JArr [])" by (simp add: is_json_object_def)
  from o
    submission_outcomes [of "\<lparr>status_code = 401, text = ''unauthorized'', json_body = None\<rparr>"]
    submission_outcomes [of "\<lparr>status_code = 402, text = ''payment required'', json_body = None\<rparr>"]
    submission_outcomes [of "\<lparr>status_code = 500, text = ''oops'', json_body = None\<rparr>"]
    submission_outcomes [of "\<lparr>status_code = 200, text = ''<html>'', json_body = None\<rparr>"]
    submission_outcomes [of "\<lparr>status_code = 200, text = ''[]'', json_body = Some (JArr [])\<rparr>"
      "JArr []"]
    submission_outcomes [of "\<lparr>status_code = 200, text = ''{}'', json_body = Some (JObj [])\<rparr>"
      _ "[]"]
    submission_outcomes [of "\<lparr>status_code = 200, text = ''{'' @ [CHR 0x22] @ ''job_id'' @ [CHR 0x22] @ '': '' @ [CHR 0x22] @ ''abc'' @ [CHR 0x22] @ ''}'',
        json_body = Some (JObj [(''job_id'', JStr ''abc'')])\<rparr>"
      _ "[(''job_id'', JStr ''abc'')]" "JStr ''abc''"]
  show ?thesis by simp
qed

text \<open>
  The claim as stated fails twice. A 201 response is a 2xx response, and one carrying a
  job identifier is still rejected with the generic API error. And a 200 response whose
  body is not JSON, which holds no job identifier, fails with the parser's decode error,
  not with the submission error.
\<close>

theorem submission_rejects_201:
  "is_2xx 201
   \<and> submitted_job_id \<lparr>status_code = 201, text = ''{'' @ [CHR 0x22] @ ''job_id'' @ [CHR 0x22] @ '': '' @ [CHR 0x22] @ ''abc'' @ [CHR 0x22] @ ''}'',
        json_body = Some (JObj [(''job_id'', JStr ''abc'')])\<rparr>
     = Inl (ApiRequestFailed 201 (''{'' @ [CHR 0x22] @ ''job_id'' @ [CHR 0x22] @ '': '' @ [CHR 0x22] @ ''abc'' @ [CHR 0x22] @ ''}''))
   \<and> is_2xx 200
   \<and> submitted_job_id \<lparr>status_code = 200, text = ''<html>'', json_body = None\<rparr>
     = Inl JSONDecodeError"
  by (simp add: is_2xx_def submitted_job_id_def json_get_def)


section \<open>Verification: polling\<close>

lemma poll_step_not_timeout: "poll_step r \<noteq> Some (Inl (JobTimedOut m))"
  by (auto simp: poll_step_def json_get_def split: sum.splits option.splits json.splits if_splits)

lemma poll_loop_terminal:
  assumes "poll_step (fetch k) = Some x" and "elapsed + k * poll_interval < max_wait"
    and "\<forall>j<k. poll_step (fetch j) = None"
  shows "poll_loop max_wait poll_interval fetch elapsed = Some (x, elapsed + k * poll_interval)"
  using assms
proof (induction k arbitrary: fetch elapsed)
  case 0
  then show ?case by (subst poll_loop.simps) simp
next
  case (Suc k)
  let ?f = "\<lambda>i. fetch (Suc i)"
  from Suc.prems have e: "elapsed < max_wait" and n: "poll_step (fetch 0) = None" by auto
  have "poll_loop max_wait poll_interval ?f (elapsed + poll_interval)
      = Some (x, (elapsed + poll_interval) + k * poll_interval)"
    using Suc.prems by (intro Suc.IH) (auto simp: algebra_simps)
  then show ?case using e n by (subst poll_loop.simps) (simp add: algebra_simps)
qed

lemma poll_loop_timeout:
  assumes "0 < poll_interval" and "\<forall>k<n. poll_step (fetch k) = None"
  shows "poll_loop (elapsed + n * poll_interval) poll_interval fetch elapsed
     = Some (Inl (JobTimedOut (elapsed + n * poll_interval)), elapsed + n * poll_interval)"
  using assms(2)
proof (induction n arbitrary: fetch elapsed)
  case 0
  show ?case by (subst poll_loop.simps) simp
next
  case (Suc n)
  let ?f = "\<lambda>i. fetch (Suc i)"
  from Suc.prems have n: "poll_step (fetch 0) = None" by auto
  have e: "elapsed < elapsed + Suc n * poll_interval" using assms(1) by simp
  have m: "elapsed + Suc n * poll_interval = (elapsed + poll_interval) + n * poll_interval"
    by simp
  have "poll_loop ((elapsed + poll_interval) + n * poll_interval) poll_interval ?f
          (elapsed + poll_interval)
      = Some (Inl (JobTimedOut ((elapsed + poll_interval) + n * poll_interval)),
          (elapsed + poll_interval) + n * poll_interval)"
    using Suc.prems by (intro Suc.IH) auto
  then show ?case
    unfolding m [symmetric] using e n by (subst poll_loop.simps) simp
qed

text \<open>With a budget of \<open>n\<close> whole intervals, the loop makes at most \<open>n\<close> requests: it ends at
  the first one that \<open>poll_step\<close> ends on, and times out when there is none.\<close>

lemma poll_loop_cases:
  assumes "0 < poll_interval"
  shows "((\<forall>k<n. poll_step (fetch k) = None) \<and>
          poll_loop (n * poll_interval) poll_interval fetch 0
            = Some (Inl (JobTimedOut (n * poll_interval)), n * poll_interval))
       \<or> (\<exists>k<n. \<exists>x. poll_step (fetch k) = Some x \<and>
          poll_loop (n * poll_interval) poll_interval fetch 0 = Some (x, k * poll_interval))"
proof (cases "\<forall>k<n. poll_step (fetch k) = None")
  case True
  from poll_loop_timeout [OF assms True, of 0] True show ?thesis by simp
next
  case False
  define k where "k = (LEAST k. k < n \<and> poll_step (fetch k) \<noteq> None)"
  from False have ex: "\<exists>k. k < n \<and> poll_step (fetch k) \<noteq> None" by auto
  then have k: "k < n \<and> poll_step (fetch k) \<noteq> None"
    unfolding k_def by (rule LeastI_ex)
  then obtain x where x: "poll_step (fetch k) = Some x" by auto
  have least: "\<forall>j<k. poll_step (fetch j) = None"
  proof (intro allI impI)
    fix j assume j: "j < k"
    show "poll_step (fetch j) = None"
    proof (rule ccontr)
      assume "poll_step (fetch j) \<noteq> None"
      with j k have "j < n \<and> poll_step (fetch j) \<noteq> None" by auto
      then have "k \<le> j" unfolding k_def by (rule Least_le)
      with j show False by simp
    qed
  qed
  have "0 + k * poll_interval < n * poll_interval" using k assms by simp
  from poll_loop_terminal [OF x this least] k x show ?thesis by auto
qed

lemma poll_loop_budget:
  assumes "0 < poll_interval"
  shows "\<exists>outcome elapsed.
     poll_loop (n * poll_interval) poll_interval fetch 0 = Some (outcome, elapsed)
   \<and> elapsed \<le> n * poll_interval
   \<and> (outcome = Inl (JobTimedOut (n * poll_interval)) \<longleftrightarrow> (\<forall>k<n. poll_step (fetch k) = None))"
  using poll_loop_cases [OF assms, of n fetch]
proof (elim disjE conjE exE)
  assume "\<forall>k<n. poll_step (fetch k) = None"
    and "poll_loop (n * poll_interval) poll_interval fetch 0
            = Some (Inl (JobTimedOut (n * poll_interval)), n * poll_interval)"
  then show ?thesis by simp
next
  fix k x
  assume k: "k < n" and x: "poll_step (fetch k) = Some x"
    and r: "poll_loop (n * poll_interval) poll_interval fetch 0 = Some (x, k * poll_interval)"
  have "x \<noteq> Inl (JobTimedOut (n * poll_interval))" using x poll_step_not_timeout by metis
  moreover have "\<not> (\<forall>k<n. poll_step (fetch k) = None)" using k x by auto
  moreover have "k * poll_interval \<le> n * poll_interval" using k by simp
  ultimately show ?thesis using r by simp
qed

lemma poll_step_status_reply:
  "status_reply r \<Longrightarrow> poll_step r = None \<longleftrightarrow> \<not> terminal_status (reply_status r)"
  by (auto simp: status_reply_def poll_step_def json_get_def reply_status_def terminal_status_def
      split: option.splits json.splits)

lemma poll_budget_status:
  assumes "0 < poll_interval" and "\<forall>i. status_reply (fetch i)"
  shows "\<exists>outcome elapsed.
     poll_loop (n * poll_interval) poll_interval fetch 0 = Some (outcome, elapsed)
   \<and> elapsed \<le> n * poll_interval
   \<and> (outcome = Inl (JobTimedOut (n * poll_interval))
        \<longleftrightarrow> (\<forall>i<n. \<not> terminal_status (reply_status (fetch i))))"
  using poll_loop_budget [OF assms(1), of n fetch] assms(2)
  by (simp add: poll_step_status_reply)

text \<open>
  Claim C2. For every sequence of status replies, each of the three polling loops ends,
  with its counter of seconds slept at most \<open>max_wait\<close> (120 for generation and Topaz at
  interval 2, 300 for Bloom at interval 5), hence within \<open>max_wait\<close> plus one interval;
  and it ends in the timeout error exactly when none of the statuses it fetches within
  the budget (the requests at seconds \<open>0, interval, ...\<close> below \<open>max_wait\<close>) is terminal.
\<close>

theorem polling_terminates_within_budget:
  assumes "\<forall>i. status_reply (fetch i)"
  shows "(\<exists>outcome elapsed. generate_image_poll fetch = Some (outcome, elapsed)
            \<and> elapsed \<le> 120 \<and> elapsed \<le> 120 + 2
            \<and> (outcome = Inl (JobTimedOut 120)
                 \<longleftrightarrow> (\<forall>i. i * 2 < 120 \<longrightarrow> \<not> terminal_status (reply_status (fetch i)))))
       \<and> (\<exists>outcome elapsed. upscale_image_poll fetch = Some (outcome, elapsed)
            \<and> elapsed \<le> 120 \<and> elapsed \<le> 120 + 2
            \<and> (outcome = Inl (JobTimedOut 120)
                 \<longleftrightarrow> (\<forall>i. i * 2 < 120 \<longrightarrow> \<not> terminal_status (reply_status (fetch i)))))
       \<and> (\<exists>outcome elapsed. upscale_bloom_poll fetch = Some (outcome, elapsed)
            \<and> elapsed \<le> 300 \<and> elapsed \<le> 300 + 5
            \<and> (outcome = Inl (JobTimedOut 300)
                 \<longleftrightarrow> (\<forall>i. i * 5 < 300 \<longrightarrow> \<not> terminal_status (reply_status (fetch i)))))"
proof -
  have i2: "i * 2 < 120 \<longleftrightarrow> i < 60" for i :: nat by arith
  have i5: "i * 5 < 300 \<longleftrightarrow> i < 60" for i :: nat by arith
  have g: "\<exists>outcome elapsed. poll_loop 120 2 fetch 0 = Some (outcome, elapsed)
            \<and> elapsed \<le> 120 \<and> elapsed \<le> 120 + 2
            \<and> (outcome = Inl (JobTimedOut 120)
                 \<longleftrightarrow> (\<forall>i. i * 2 < 120 \<longrightarrow> \<not> terminal_status (reply_status (fetch i))))"
    using poll_budget_status [of 2 fetch 60] assms unfolding i2 by auto
  have b: "\<exists>outcome elapsed. poll_loop 300 5 fetch 0 = Some (outcome, elapsed)
            \<and> elapsed \<le> 300 \<and> elapsed \<le> 300 + 5
            \<and> (outcome = Inl (JobTimedOut 300)
                 \<longleftrightarrow> (\<forall>i. i * 5 < 300 \<longrightarrow> \<not> terminal_status (reply_status (fetch i))))"
    using poll_budget_status [of 5 fetch 60] assms unfolding i5 by auto
  from g b show ?thesis
    unfolding generate_image_poll_def upscale_image_poll_def upscale_bloom_poll_def by blast
qed

theorem polling_terminates_within_budget_witness:
  "status_reply \<lparr>status_code = 200, text = [], json_body = Some (JObj [(''status'', JStr ''processing'')])\<rparr>
   \<and> \<not> terminal_status (reply_status
        \<lparr>status_code = 200, text = [], json_body = Some (JObj [(''status'', JStr ''processing'')])\<rparr>)
   \<and> generate_image_poll (\<lambda>i.
        \<lparr>status_code = 200, text = [], json_body = Some (JObj [(''status'', JStr ''processing'')])\<rparr>)
      = Some (Inl (JobTimedOut 120), 120)
   \<and> upscale_bloom_poll (\<lambda>i.
        \<lparr>status_code = 200, text = [], json_body = Some (JObj [(''status'', JStr ''processing'')])\<rparr>)
      = Some (Inl (JobTimedOut 300), 300)"
proof -
  let ?r = "\<lparr>status_code = 200, text = [], json_body = Some (JObj [(''status'', JStr ''processing'')])\<rparr>"
  have s: "status_reply ?r" by (simp add: status_reply_def)
  have t: "\<not> terminal_status (reply_status ?r)"
    by (simp add: reply_status_def terminal_status_def)
  have a: "\<forall>i. status_reply ((\<lambda>i. ?r) i)" using s by simp
  have g: "generate_image_poll (\<lambda>i. ?r) = Some (Inl (JobTimedOut 120), 120)"
    by code_simp
  have b: "upscale_bloom_poll (\<lambda>i. ?r) = Some (Inl (JobTimedOut 300), 300)"
    by code_simp
  from polling_terminates_within_budget [OF a] s t g b show ?thesis by simp
qed


section \<open>Verification: file extension\<close>

lemma generate_image_ext_vs_spec:
  "generate_image_ext (Some ct) url = spec_ext ct url \<longleftrightarrow>
     \<not> (contains ct ''webp'' \<and> \<not> contains ct ''png'' \<and> endswith url ''.png'')"
  by (simp add: generate_image_ext_def spec_ext_def)

lemma generate_image_ext_no_header: "generate_image_ext None url = spec_ext [] url"
  by (simp add: generate_image_ext_def spec_ext_def)

lemma generate_image_ext_default:
  "\<not> contains ct ''png'' \<Longrightarrow> \<not> contains ct ''webp'' \<Longrightarrow>
   \<not> endswith url ''.png'' \<Longrightarrow> \<not> endswith url ''.webp'' \<Longrightarrow>
   generate_image_ext (Some ct) url = ''.jpg''"
  by (simp add: generate_image_ext_def)

lemma upscale_ext_dot: "upscale_image_ext fmt = ''.'' @ fmt" "upscale_bloom_ext fmt = ''.'' @ fmt"
  by (simp_all add: upscale_image_ext_def upscale_bloom_ext_def)

text \<open>
  Claim C7, as the code has it. For a generated image the extension is the one the
  content type first, URL suffix second, JPEG last resolution gives, except when the
  content type names webp and not png while the URL ends in \<^verbatim>\<open>.png\<close>: then the URL wins
  and the extension is \<^verbatim>\<open>.png\<close>. It is \<^verbatim>\<open>.jpg\<close> when neither content type nor URL
  suffix yields png or webp. For an upscaled image, with either engine, the extension is
  a dot followed by the requested output format, whatever the content type and the URL.
\<close>

theorem extension_resolution:
  "(generate_image_ext (Some ct) url = spec_ext ct url \<longleftrightarrow>
      \<not> (contains ct ''webp'' \<and> \<not> contains ct ''png'' \<and> endswith url ''.png''))
   \<and> (contains ct ''webp'' \<and> \<not> contains ct ''png'' \<and> endswith url ''.png''
        \<longrightarrow> generate_image_ext (Some ct) url = ''.png'')
   \<and> (\<not> contains ct ''png'' \<and> \<not> contains ct ''webp''
        \<and> \<not> endswith url ''.png'' \<and> \<not> endswith url ''.webp''
        \<longrightarrow> generate_image_ext (Some ct) url = ''.jpg'')
   \<and> generate_image_ext None url = spec_ext [] url
   \<and> upscale_image_ext output_format = ''.'' @ output_format
   \<and> upscale_bloom_ext output_format = ''.'' @ output_format"
  using generate_image_ext_vs_spec [of ct url] generate_image_ext_default [of ct url]
    generate_image_ext_no_header [of url] upscale_ext_dot [of output_format]
  by (auto simp: generate_image_ext_def)

theorem extension_resolution_witness:
  "contains ''image/webp'' ''webp'' \<and> \<not> contains ''image/webp'' ''png''
   \<and> endswith ''https://cdn.example/a.png'' ''.png''
   \<and> generate_image_ext (Some ''image/webp'') ''https://cdn.example/a.png'' = ''.png''
   \<and> \<not> contains ''image/jpeg'' ''png'' \<and> \<not> contains ''image/jpeg'' ''webp''
   \<and> \<not> endswith ''https://cdn.example/a'' ''.png''
   \<and> \<not> endswith ''https://cdn.example/a'' ''.webp''
   \<and> generate_image_ext (Some ''image/jpeg'') ''https://cdn.example/a'' = ''.jpg''
   \<and> generate_image_ext (Some ''image/png'') ''https://cdn.example/a''
       = spec_ext ''image/png'' ''https://cdn.example/a''"
proof -
  have 1: "contains ''image/webp'' ''webp''" "\<not> contains ''image/webp'' ''png''"
    "endswith ''https://cdn.example/a.png'' ''.png''"
    by (simp_all add: endswith_def)
  have 2: "\<not> contains ''image/jpeg'' ''png''" "\<not> contains ''image/jpeg'' ''webp''"
    "\<not> endswith ''https://cdn.example/a'' ''.png''"
    "\<not> endswith ''https://cdn.example/a'' ''.webp''"
    by (simp_all add: endswith_def)
  have 3: "contains ''image/png'' ''png''" by simp
  from 1 2 3
    extension_resolution [of "''image/webp''" "''https://cdn.example/a.png''" "''png''"]
    extension_resolution [of "''image/jpeg''" "''https://cdn.example/a''" "''png''"]
    extension_resolution [of "''image/png''" "''https://cdn.example/a''" "''png''"]
  show ?thesis by blast
qed

text \<open>
  The claim as stated fails twice. A generated image served as \<^verbatim>\<open>image/webp\<close> from a
  URL ending in \<^verbatim>\<open>.png\<close> is saved as \<^verbatim>\<open>.png\<close>, though its content type decides webp.
  And an upscale asked for in the default format png is saved as \<^verbatim>\<open>.png\<close> even when
  content type and URL both say webp.
\<close>

theorem extension_ignores_content_type:
  "generate_image_ext (Some ''image/webp'') ''https://cdn.example/a.png'' = ''.png''
   \<and> spec_ext ''image/webp'' ''https://cdn.example/a.png'' = ''.webp''
   \<and> upscale_image_ext ''png'' = ''.png''
   \<and> upscale_bloom_ext ''png'' = ''.png''
   \<and> spec_ext ''image/webp'' ''https://cdn.example/b.webp'' = ''.webp''"
  by (simp add: generate_image_ext_def spec_ext_def upscale_image_ext_def
      upscale_bloom_ext_def endswith_def)


section \<open>Verification: engine of a preset run\<close>

lemma preset_engine_default:
  "args_engine args = ''topaz'' \<Longrightarrow> preset_mode_engine args preset = engine preset"
  by (simp add: preset_mode_engine_def)

lemma preset_engine_override_bloom:
  "args_engine args = ''bloom'' \<Longrightarrow> preset_mode_engine args preset = ''bloom''"
  by (simp add: preset_mode_engine_def)

lemma parse_args_engine:
  "parse_args cli = Some args \<Longrightarrow> args_engine args = or_else (cli_engine cli) ''topaz''"
  by (auto simp: parse_args_def split: if_splits)

text \<open>
  Claim C1 does not hold of the code. An upscale with \<^verbatim>\<open>--preset lowres --engine topaz\<close>
  calls Bloom with the preset's Bloom settings, exactly as the same command without
  \<^verbatim>\<open>--engine\<close> does: the explicit choice of Topaz is read as no choice. The interactive
  path does honour it: answering \<^verbatim>\<open>1\<close> on the same preset selects Topaz.
\<close>

theorem explicit_topaz_lost_on_bloom_preset:
  "main_upscale (no_options\<lparr>cli_preset := Some ''lowres'', cli_engine := Some ''topaz''\<rparr>) url
     = Some (UpscaleBloom url 2
         \<lparr>creativity = 5, face_preservation = False, color_preservation = False\<rparr> [])
   \<and> main_upscale (no_options\<lparr>cli_preset := Some ''lowres''\<rparr>) url
     = Some (UpscaleBloom url 2
         \<lparr>creativity = 5, face_preservation = False, color_preservation = False\<rparr> [])
   \<and> map_option (\<lambda>p. interactive_engine p [''1'']) (map_of UPSCALE_PRESETS ''lowres'')
     = Some (Some (''topaz'', []))"
  by (simp add: main_upscale_def no_options_def parse_args_def UPSCALE_PRESETS_def
      upscale_dispatch_def preset_mode_engine_def or_else_def)


section \<open>Verification: upload configuration and input resolution\<close>

lemma ftp_configured_iff:
  "ftp_configured env \<longleftrightarrow>
     str_truthy (getenv env ''FTP_HOST'') \<and> str_truthy (getenv env ''FTP_USER'')
     \<and> str_truthy (getenv env ''FTP_PASS'') \<and> str_truthy (getenv env ''FTP_PUBLIC_URL'')"
  by (auto simp: ftp_configured_def FTP_HOST_def FTP_USER_def FTP_PASS_def FTP_PUBLIC_URL_def
      str_truthy_def split: option.splits)

lemma upload_not_configured:
  "\<not> ftp_configured env \<Longrightarrow>
   upload_to_ftp env path_exists can_open server uuid_hex local_path = (Inl FtpNotConfigured, [])"
  by (simp add: upload_to_ftp_def)

lemma upload_configured:
  "ftp_configured env \<Longrightarrow>
   fst (upload_to_ftp env path_exists can_open server uuid_hex local_path) \<noteq> Inl FtpNotConfigured"
  by (simp add: upload_to_ftp_def Let_def split: prod.splits)

text \<open>A path that exists but cannot be opened, a directory say, fails the upload after the
  login, with nothing stored.\<close>

lemma upload_cannot_open:
  "upload_to_ftp (env_of [(''FTP_HOST'', ''ftp.example''), (''FTP_USER'', ''u''),
        (''FTP_PASS'', ''p''), (''FTP_PUBLIC_URL'', ''https://cdn.example/img'')])
        (\<lambda>p. True) (\<lambda>p. False) (\<lambda>sent op. Ok) ''0123456789abcdef0123456789abcdef''
        ''photos''
      = (Inl FtpUploadFailed, [Connect ''ftp.example'' 21, Login ''u'' ''p''])"
  by code_simp

text \<open>
  Claim C8, as the code has it. The upload needs the host, the user, the password and
  the public base URL: when any of the four is not set or is empty it fails with the
  configuration error and has sent nothing to the network. The remote base path is not
  among them: it defaults to \<^verbatim>\<open>/\<close>, and with the four set the upload never fails with
  the configuration error, whatever the remote base path.
\<close>

theorem upload_requires_four_settings:
  "(ftp_configured env \<longleftrightarrow>
      str_truthy (getenv env ''FTP_HOST'') \<and> str_truthy (getenv env ''FTP_USER'')
      \<and> str_truthy (getenv env ''FTP_PASS'') \<and> str_truthy (getenv env ''FTP_PUBLIC_URL''))
   \<and> (\<not> ftp_configured env \<longrightarrow>
        upload_to_ftp env path_exists can_open server uuid_hex local_path = (Inl FtpNotConfigured, []))
   \<and> (ftp_configured env \<longrightarrow>
        fst (upload_to_ftp env path_exists can_open server uuid_hex local_path) \<noteq> Inl FtpNotConfigured)"
  using ftp_configured_iff [of env] upload_not_configured [of env] upload_configured [of env]
  by blast

theorem upload_requires_four_settings_witness:
  "\<not> ftp_configured (env_of [(''FTP_HOST'', ''ftp.example''), (''FTP_USER'', ''u''),
        (''FTP_PUBLIC_URL'', ''https://cdn.example/img''), (''FTP_REMOTE_PATH'', ''/img'')])
   \<and> upload_to_ftp (env_of [(''FTP_HOST'', ''ftp.example''), (''FTP_USER'', ''u''),
        (''FTP_PUBLIC_URL'', ''https://cdn.example/img''), (''FTP_REMOTE_PATH'', ''/img'')])
        (\<lambda>p. True) (\<lambda>p. True) (\<lambda>sent op. Ok) ''0123456789abcdef0123456789abcdef''
        ''photo.jpg''
      = (Inl FtpNotConfigured, [])
   \<and> ftp_configured (env_of [(''FTP_HOST'', ''ftp.example''), (''FTP_USER'', ''u''),
        (''FTP_PASS'', ''p''), (''FTP_PUBLIC_URL'', ''https://cdn.example/img'')])
   \<and> fst (upload_to_ftp (env_of [(''FTP_HOST'', ''ftp.example''), (''FTP_USER'', ''u''),
        (''FTP_PASS'', ''p''), (''FTP_PUBLIC_URL'', ''https://cdn.example/img'')])
        (\<lambda>p. True) (\<lambda>p. True) (\<lambda>sent op. Ok) ''0123456789abcdef0123456789abcdef''
        ''photo.jpg'')
      \<noteq> Inl FtpNotConfigured"
proof -
  let ?e1 = "env_of [(''FTP_HOST'', ''ftp.example''), (''FTP_USER'', ''u''),
        (''FTP_PUBLIC_URL'', ''https://cdn.example/img''), (''FTP_REMOTE_PATH'', ''/img'')]"
  let ?e2 = "env_of [(''FTP_HOST'', ''ftp.example''), (''FTP_USER'', ''u''),
        (''FTP_PASS'', ''p''), (''FTP_PUBLIC_URL'', ''https://cdn.example/img'')]"
  have 1: "\<not> ftp_configured ?e1"
    by (simp add: ftp_configured_iff env_of_def str_truthy_def)
  have 2: "ftp_configured ?e2"
    by (simp add: ftp_configured_iff env_of_def str_truthy_def)
  from 1 2
    upload_requires_four_settings [of ?e1 "\<lambda>p. True" "\<lambda>p. True" "\<lambda>sent op. Ok"
      "''0123456789abcdef0123456789abcdef''" "''photo.jpg''"]
    upload_requires_four_settings [of ?e2 "\<lambda>p. True" "\<lambda>p. True" "\<lambda>sent op. Ok"
      "''0123456789abcdef0123456789abcdef''" "''photo.jpg''"]
  show ?thesis by blast
qed

text \<open>
  The claim as stated fails for the remote base path: with \<^verbatim>\<open>FTP_REMOTE_PATH\<close> not set,
  and the other four set, the upload goes to the network and succeeds.
\<close>

theorem upload_without_remote_path:
  "getenv (env_of [(''FTP_HOST'', ''ftp.example''), (''FTP_USER'', ''u''),
        (''FTP_PASS'', ''p''), (''FTP_PUBLIC_URL'', ''https://cdn.example/img'')])
      ''FTP_REMOTE_PATH'' = None
   \<and> upload_to_ftp (env_of [(''FTP_HOST'', ''ftp.example''), (''FTP_USER'', ''u''),
        (''FTP_PASS'', ''p''), (''FTP_PUBLIC_URL'', ''https://cdn.example/img'')])
        (\<lambda>p. True) (\<lambda>p. True) (\<lambda>sent op. Ok) ''0123456789abcdef0123456789abcdef''
        ''photo.jpg''
      = (Inr ''https://cdn.example/img/0123456789ab.jpg'',
         [Connect ''ftp.example'' 21, Login ''u'' ''p'', Stor ''0123456789ab.jpg'', Quit])"
  by code_simp

lemma startswith_iff_prefix: "startswith s p \<longleftrightarrow> prefix p s"
  by (simp add: startswith_prefix prefix_def)

lemma resolve_url:
  "is_url path \<Longrightarrow> resolve_image_url env path_exists can_open server uuid_hex path = (Inr path, [])"
  by (simp add: resolve_image_url_def)

lemma url_not_local_file: "is_url path \<Longrightarrow> \<not> is_local_file path_exists path"
  by (simp add: is_local_file_def)

text \<open>
  Claim C10. A path is a URL exactly when it starts with \<^verbatim>\<open>http://\<close> or \<^verbatim>\<open>https://\<close>;
  nothing else of it is looked at, so the bare \<^verbatim>\<open>http://\<close> and a URL with a space in it
  are URLs. A URL is returned unchanged with nothing sent to the network, whatever the
  file system holds, and is never taken for a local file.
\<close>

theorem url_classified_by_prefix:
  "(is_url path \<longleftrightarrow> prefix ''http://'' path \<or> prefix ''https://'' path)
   \<and> (is_url path \<longrightarrow>
        resolve_image_url env path_exists can_open server uuid_hex path = (Inr path, [])
        \<and> \<not> is_local_file path_exists path)
   \<and> is_url ''http://'' \<and> is_url ''http://a b''"
proof -
  have "is_url path \<longleftrightarrow> prefix ''http://'' path \<or> prefix ''https://'' path"
    by (simp add: is_url_def startswith_iff_prefix)
  moreover have "is_url ''http://''" "is_url ''http://a b''"
    by (simp_all add: is_url_def)
  ultimately show ?thesis
    using resolve_url [of path env path_exists can_open server uuid_hex]
      url_not_local_file [of path path_exists]
    by blast
qed

theorem url_classified_by_prefix_witness:
  "is_url ''http://''
   \<and> resolve_image_url (env_of []) (\<lambda>p. True) (\<lambda>p. True) (\<lambda>sent op. ErrorOther)
        ''0123456789abcdef0123456789abcdef'' ''http://'' = (Inr ''http://'', [])
   \<and> \<not> is_local_file (\<lambda>p. True) ''http://''"
  using url_classified_by_prefix [of "''http://''" "env_of []" "\<lambda>p. True" "\<lambda>p. True"
      "\<lambda>sent op. ErrorOther" "''0123456789abcdef0123456789abcdef''"]
  by blast


section \<open>Verification: the provenance store\<close>

lemma py_split_not_Nil: "py_split sep s \<noteq> []"
  by (induction s) (auto split: list.splits)

lemma py_split_append: "py_split sep (xs @ sep # ys) = py_split sep xs @ py_split sep ys"
proof (induction xs)
  case Nil
  show ?case by simp
next
  case (Cons c cs)
  obtain w ws where w: "py_split sep cs = w # ws"
    using py_split_not_Nil [of sep cs] by (cases "py_split sep cs") auto
  show ?case using Cons w by simp
qed

lemma py_split_no_sep: "sep \<notin> set s \<Longrightarrow> py_split sep s = [s]"
  by (induction s) auto

lemma log_lines_terminated: "log_lines (c @ [newline]) = py_split newline c"
proof -
  have "py_split newline (c @ newline # []) = py_split newline c @ [[]]"
    by (simp only: py_split_append py_split.simps)
  then show ?thesis by (simp add: log_lines_def)
qed

lemma log_lines_empty: "log_lines [] = []"
  by (simp add: log_lines_def)

lemma log_lines_append_line:
  assumes "log_terminated c" and "newline \<notin> set line"
  shows "log_lines (c @ line @ [newline]) = log_lines c @ [line]"
proof (cases "c = []")
  case True
  have "log_lines (line @ [newline]) = [line]"
    using assms(2) by (simp add: log_lines_terminated py_split_no_sep)
  with True show ?thesis by (simp add: log_lines_empty)
next
  case False
  with assms(1) obtain c' where c: "c = c' @ [newline]"
    unfolding log_terminated_def by (metis append_butlast_last_id)
  have "log_lines (c @ line @ [newline]) = py_split newline (c' @ newline # line)"
    using log_lines_terminated [of "c' @ newline # line"] c by simp
  also have "\<dots> = py_split newline c' @ [line]"
    using assms(2) by (simp add: py_split_append py_split_no_sep)
  also have "py_split newline c' = log_lines c"
    using log_lines_terminated [of c'] c by simp
  finally show ?thesis .
qed

lemma append_record_files:
  "LOG_FILE (append_record dumps dumps_indent e st)
     = Some (file_content (LOG_FILE st) @ dumps e @ [newline])"
  "LAST_IMAGE_FILE (append_record dumps dumps_indent e st) = Some (dumps_indent e)"
  by (simp_all add: append_record_def write_last_image_def log_generation_def)

text \<open>
  Claim C9. Given that \<^verbatim>\<open>json.dumps\<close> without \<^verbatim>\<open>indent\<close> puts no newline in its
  output, that \<^verbatim>\<open>json.loads\<close> reads back what \<^verbatim>\<open>json.dumps(..., indent=2)\<close> wrote, and
  that the log so far is terminated: an append adds exactly one line to the log, the
  serialized record, leaves the lines before it as they were and the log terminated; and
  after it the latest record file reads back as the record just appended, also after an
  earlier append of another record.
\<close>

theorem append_record_one_line_and_latest:
  assumes "\<forall>e. newline \<notin> set (dumps e)"
    and "\<forall>e. loads (dumps_indent e) = Some e"
    and "log_terminated (file_content (LOG_FILE st))"
  shows "log_lines (file_content (LOG_FILE (append_record dumps dumps_indent entry st)))
           = log_lines (file_content (LOG_FILE st)) @ [dumps entry]
       \<and> log_terminated (file_content (LOG_FILE (append_record dumps dumps_indent entry st)))
       \<and> LAST_IMAGE_FILE (append_record dumps dumps_indent entry st) = Some (dumps_indent entry)
       \<and> get_last_image_info loads (append_record dumps dumps_indent entry st)
           = Inr (Some entry)
       \<and> get_last_image_info loads
           (append_record dumps dumps_indent entry (append_record dumps dumps_indent earlier st))
           = Inr (Some entry)"
proof -
  have nl: "newline \<notin> set (dumps entry)" using assms(1) by simp
  have "log_lines (file_content (LOG_FILE st) @ dumps entry @ [newline])
      = log_lines (file_content (LOG_FILE st)) @ [dumps entry]"
    using assms(3) nl by (rule log_lines_append_line)
  moreover have "log_terminated (file_content (LOG_FILE st) @ dumps entry @ [newline])"
    by (simp add: log_terminated_def)
  moreover have "get_last_image_info loads (append_record dumps dumps_indent entry s)
      = Inr (Some entry)" for s
    using assms(2) by (simp add: get_last_image_info_def append_record_files)
  ultimately show ?thesis
    by (simp add: append_record_files file_content_def)
qed

theorem append_record_one_line_and_latest_witness:
  "log_terminated (file_content (LOG_FILE \<lparr>LOG_FILE = Some ''false\<newline>'', LAST_IMAGE_FILE = None\<rparr>))
   \<and> log_lines (file_content (LOG_FILE (append_record bool_dumps bool_dumps True
         \<lparr>LOG_FILE = Some ''false\<newline>'', LAST_IMAGE_FILE = None\<rparr>)))
       = [''false'', ''true'']
   \<and> get_last_image_info bool_loads (append_record bool_dumps bool_dumps True
         \<lparr>LOG_FILE = Some ''false\<newline>'', LAST_IMAGE_FILE = None\<rparr>) = Inr (Some True)"
proof -
  let ?st = "\<lparr>LOG_FILE = Some ''false\<newline>'', LAST_IMAGE_FILE = None\<rparr>"
  have 1: "\<forall>e. newline \<notin> set (bool_dumps e)"
    by (simp add: bool_dumps_def newline_def)
  have 2: "\<forall>e. bool_loads (bool_dumps e) = Some e"
    by (simp add: bool_dumps_def bool_loads_def)
  have 3: "log_terminated (file_content (LOG_FILE ?st))"
    by (simp add: log_terminated_def file_content_def newline_def)
  have 4: "log_lines (file_content (LOG_FILE ?st)) = [''false'']"
    by (simp add: log_lines_def file_content_def newline_def)
  have 5: "bool_dumps True = ''true''" by (simp add: bool_dumps_def)
  note t = append_record_one_line_and_latest [OF 1 2 3, of True]
  from t have "log_lines (file_content (LOG_FILE (append_record bool_dumps bool_dumps True ?st)))
      = log_lines (file_content (LOG_FILE ?st)) @ [bool_dumps True]"
    by (rule conjunct1)
  then have a: "log_lines (file_content (LOG_FILE (append_record bool_dumps bool_dumps True ?st)))
      = [''false'', ''true'']"
    unfolding 4 5 by simp
  from t have b: "get_last_image_info bool_loads (append_record bool_dumps bool_dumps True ?st)
      = Inr (Some True)"
    by blast
  from 3 a b show ?thesis by blast
qed


end
